theory Spec2Isabelle
  imports Complex_Main "HOL-Library.Word"
begin

section \<open>Grid partitioner\<close>

text \<open>
  \<^verbatim>\<open>get_grid_coordinates(width, height)\<close> is the same text in \<^verbatim>\<open>src/gif_unveil.py\<close>
  and in \<^verbatim>\<open>src/gifboxes/gif_unveil.py\<close>. Python's \<^verbatim>\<open>int\<close> is unbounded and
  \<^verbatim>\<open>//\<close> is floor division, which is \<open>div\<close> on \<^typ>\<open>int\<close>. A bounding box is the
  4-tuple \<^verbatim>\<open>(x1, y1, x2, y2)\<close> the source builds.
\<close>

type_synonym rect = "int \<times> int \<times> int \<times> int"

text \<open>The body of the two nested loops: the box appended for one \<open>row\<close> and \<open>col\<close>.\<close>

definition grid_cell :: "int \<Rightarrow> int \<Rightarrow> int \<Rightarrow> int \<Rightarrow> nat \<Rightarrow> nat \<Rightarrow> rect" where
  "grid_cell width height cell_width cell_height row col =
     (let x1 = int col * cell_width;
          y1 = int row * cell_height;
          x2 = (if col < 2 then x1 + cell_width else width);
          y2 = (if row < 2 then y1 + cell_height else height)
      in (x1, y1, x2, y2))"

definition get_grid_coordinates :: "int \<Rightarrow> int \<Rightarrow> rect list" where
  "get_grid_coordinates width height =
     (let cell_width = width div 3;
          cell_height = height div 3
      in fold (\<lambda>row coordinates.
                 fold (\<lambda>col coordinates.
                         coordinates @ [grid_cell width height cell_width cell_height row col])
                      [0..<3] coordinates)
              [0..<3] [])"

text \<open>The copy of the function in \<^verbatim>\<open>src/gifboxes/gif_unveil.py\<close>.\<close>

definition gifboxes_get_grid_coordinates :: "int \<Rightarrow> int \<Rightarrow> rect list" where
  "gifboxes_get_grid_coordinates width height =
     (let cell_width = width div 3;
          cell_height = height div 3
      in fold (\<lambda>row coordinates.
                 fold (\<lambda>col coordinates.
                         coordinates @
                           [(let x1 = int col * cell_width;
                                 y1 = int row * cell_height;
                                 x2 = (if col < 2 then x1 + cell_width else width);
                                 y2 = (if row < 2 then y1 + cell_height else height)
                             in (x1, y1, x2, y2))])
                      [0..<3] coordinates)
              [0..<3] [])"

text \<open>
  A box covers the half-open pixel range \<open>[x1, x2) \<times> [y1, y2)\<close>: the convention of the
  imaging library's \<^verbatim>\<open>crop\<close> and \<^verbatim>\<open>paste\<close>, which the renderer hands the boxes to.
\<close>

fun in_rect :: "rect \<Rightarrow> int \<times> int \<Rightarrow> bool" where
  "in_rect (x1, y1, x2, y2) (x, y) = (x1 \<le> x \<and> x < x2 \<and> y1 \<le> y \<and> y < y2)"

fun in_bounds :: "int \<Rightarrow> int \<Rightarrow> int \<times> int \<Rightarrow> bool" where
  "in_bounds width height (x, y) = (0 \<le> x \<and> x < width \<and> 0 \<le> y \<and> y < height)"

fun rect_width :: "rect \<Rightarrow> int" where
  "rect_width (x1, y1, x2, y2) = x2 - x1"

fun rect_height :: "rect \<Rightarrow> int" where
  "rect_height (x1, y1, x2, y2) = y2 - y1"

definition zero_extent :: "rect \<Rightarrow> bool" where
  "zero_extent r = (rect_width r = 0 \<or> rect_height r = 0)"

text \<open>
  The interval of column (or row) \<open>k\<close> in one direction: from \<open>k * cell\<close> to
  \<open>k * cell + cell\<close>, or to the full extent for the last one. Used to state and prove
  the properties of the partition.
\<close>

definition in_span :: "int \<Rightarrow> int \<Rightarrow> nat \<Rightarrow> int \<Rightarrow> bool" where
  "in_span full cell k x =
     (int k * cell \<le> x \<and> x < (if k < 2 then int k * cell + cell else full))"

section \<open>Exceptions, list indexing\<close>

text \<open>
  The exceptions the two programs can meet, each with its message. \<open>OSError\<close> stands for
  whatever the imaging library raises when it cannot read or write a file.
\<close>

datatype exn =
    ValueError string
  | IndexError string
  | OverflowError string
  | ZeroDivisionError string
  | OSError string

text \<open>
  \<^verbatim>\<open>xs[i]\<close>: an index from \<open>-len(xs)\<close> to \<open>-1\<close> counts from the end, any other index
  outside \<open>0 .. len(xs) - 1\<close> raises \<^verbatim>\<open>IndexError\<close>.
\<close>

definition py_index :: "'a list \<Rightarrow> int \<Rightarrow> exn + 'a" where
  "py_index xs i =
     (if 0 \<le> i \<and> i < int (length xs) then Inr (xs ! nat i)
      else if i < 0 \<and> - int (length xs) \<le> i then Inr (xs ! nat (int (length xs) + i))
      else Inl (IndexError ''list index out of range''))"

section \<open>Strings and \<^verbatim>\<open>int(x)\<close>\<close>

text \<open>
  A \<^typ>\<open>string\<close> here is a Python \<^verbatim>\<open>str\<close> whose code points are below 256, one
  \<^typ>\<open>char\<close> per code point. \<open>is_space\<close> is \<^verbatim>\<open>str.isspace\<close> on these code points
  (tab, line feed, vertical tab, form feed, carriage return, the four separators
  \<open>0x1c .. 0x1f\<close>, space, \<open>0x85\<close> and \<open>0xa0\<close>); the decimal digits among them are
  \<open>0 .. 9\<close>.
\<close>

definition is_space :: "char \<Rightarrow> bool" where
  "is_space c = ((of_char c :: nat) \<in> set [9, 10, 11, 12, 13, 28, 29, 30, 31, 32, 133, 160])"

definition is_digit :: "char \<Rightarrow> bool" where
  "is_digit c = (48 \<le> (of_char c :: nat) \<and> (of_char c :: nat) \<le> 57)"

definition digit_value :: "char \<Rightarrow> int" where
  "digit_value c = int (of_char c) - 48"

text \<open>\<^verbatim>\<open>x.strip()\<close>, \<^verbatim>\<open>s.replace(',', ' ')\<close>, \<^verbatim>\<open>s.split()\<close> and \<^verbatim>\<open>s.split(',')\<close>.\<close>

definition py_strip :: "string \<Rightarrow> string" where
  "py_strip s = rev (dropWhile is_space (rev (dropWhile is_space s)))"

definition replace_comma :: "string \<Rightarrow> string" where
  "replace_comma s = map (\<lambda>c. if c = CHR '','' then CHR '' '' else c) s"

text \<open>
  \<^verbatim>\<open>s.split()\<close> cuts at runs of whitespace and returns no empty piece; \<open>cur\<close> is the
  piece being read.
\<close>

primrec split_ws :: "string \<Rightarrow> string \<Rightarrow> string list" where
  "split_ws cur [] = (if cur = [] then [] else [cur])"
| "split_ws cur (c # cs) =
     (if is_space c then (if cur = [] then split_ws [] cs else cur # split_ws [] cs)
      else split_ws (cur @ [c]) cs)"

definition py_split :: "string \<Rightarrow> string list" where
  "py_split s = split_ws [] s"

text \<open>\<^verbatim>\<open>s.split(sep)\<close> cuts at every \<open>sep\<close> and keeps empty pieces.\<close>

primrec split_at :: "char \<Rightarrow> string \<Rightarrow> string \<Rightarrow> string list" where
  "split_at sep cur [] = [cur]"
| "split_at sep cur (c # cs) =
     (if c = sep then cur # split_at sep [] cs else split_at sep (cur @ [c]) cs)"

definition py_split_on :: "char \<Rightarrow> string \<Rightarrow> string list" where
  "py_split_on sep s = split_at sep [] s"

text \<open>
  \<^verbatim>\<open>int(x)\<close> on a string, base 10: whitespace at both ends is dropped, one sign is
  allowed, then come digits, where a single underscore may stand between two digits.
  The whitespace \<^verbatim>\<open>int\<close> drops is narrower than that of \<^verbatim>\<open>str.isspace\<close>: the
  separators \<open>0x1c .. 0x1f\<close> are not part of it (\<^verbatim>\<open>int('\x1c5')\<close> raises). Since
  Python 3.11 a literal of more than 640 digits is refused when it has more digits than
  the interpreter's limit (\<^verbatim>\<open>sys.get_int_max_str_digits()\<close>, 4300 unless changed, 0 for
  no limit, which is also the behaviour of older interpreters); underscores, sign and
  whitespace do not count.
\<close>

definition is_int_space :: "char \<Rightarrow> bool" where
  "is_int_space c = ((of_char c :: nat) \<in> set [9, 10, 11, 12, 13, 32, 133, 160])"

definition int_strip :: "string \<Rightarrow> string" where
  "int_strip s = rev (dropWhile is_int_space (rev (dropWhile is_int_space s)))"

fun digits_ok :: "string \<Rightarrow> bool" where
  "digits_ok [] = False"
| "digits_ok [c] = is_digit c"
| "digits_ok (c # d # r) =
     (is_digit c \<and> (if d = CHR ''_'' then digits_ok r else digits_ok (d # r)))"

definition digits_value :: "string \<Rightarrow> int" where
  "digits_value ds = fold (\<lambda>c n. 10 * n + digit_value c) ds 0"

definition py_int :: "nat \<Rightarrow> string \<Rightarrow> exn + int" where
  "py_int maxd x =
     (let t = int_strip x;
          negative = (t \<noteq> [] \<and> hd t = CHR ''-'');
          body = (if t \<noteq> [] \<and> (hd t = CHR ''-'' \<or> hd t = CHR ''+'') then tl t else t);
          ds = filter is_digit body
      in if \<not> digits_ok body then Inl (ValueError ''invalid literal for int() with base 10'')
         else if 640 < length ds \<and> 0 < maxd \<and> maxd < length ds
           then Inl (ValueError ''Exceeds the limit for integer string conversion'')
         else Inr (if negative then - digits_value ds else digits_value ds))"

text \<open>The comprehension \<^verbatim>\<open>[int(x) for x in xs]\<close>: the first failing element raises.\<close>

fun int_each :: "nat \<Rightarrow> string list \<Rightarrow> exn + int list" where
  "int_each maxd [] = Inr []"
| "int_each maxd (x # xs) =
     (case py_int maxd x of
        Inl e \<Rightarrow> Inl e
      | Inr n \<Rightarrow> (case int_each maxd xs of Inl e \<Rightarrow> Inl e | Inr ns \<Rightarrow> Inr (n # ns)))"

section \<open>What a run does: printed lines, library calls, exit status\<close>

text \<open>
  An image in mode \<^verbatim>\<open>RGB\<close>: its \<^verbatim>\<open>size\<close> and its pixel rows, top row first, three bytes
  a pixel.
\<close>

type_synonym rgb = "8 word \<times> 8 word \<times> 8 word"

record pil_image =
  size_w :: nat
  size_h :: nat
  rows :: "rgb list list"

text \<open>The arguments of one \<^verbatim>\<open>frames[0].save(...)\<close> call; \<open>save_loop\<close> is \<open>None\<close> when
  no \<^verbatim>\<open>loop\<close> argument is passed.\<close>

record save_call =
  save_path :: string
  save_first :: pil_image
  save_append_images :: "pil_image list"
  save_duration :: int
  save_loop :: "int option"

text \<open>
  How a \<^verbatim>\<open>save\<close> call ends: it returns, or it raises; in the second case the flag tells
  whether the library left an incomplete file at the path.
\<close>

datatype save_outcome = Saved | SaveFailed exn bool

datatype message =
    ImageNotFound string
  | ErrorParsingPermutation exn
  | ErrorCreatingGIF exn
  | GIFCreated string
  | Traceback exn

datatype event =
    Print message
  | ImageOpen string
  | Save save_call save_outcome

text \<open>
  A step of the program yields the events it caused and either a value or, after
  \<^verbatim>\<open>sys.exit(n)\<close>, the exit status \<open>n\<close>.
\<close>

type_synonym 'a step = "event list \<times> (int + 'a)"

section \<open>Permutation validator\<close>

text \<open>The \<^verbatim>\<open>try\<close> body of \<^verbatim>\<open>validate_permutation\<close> in \<^verbatim>\<open>src/gif_unveil.py\<close>, in two
  parts: building \<open>perm\<close>, and the two checks on it.\<close>

definition parse_permutation :: "nat \<Rightarrow> string \<Rightarrow> exn + int list" where
  "parse_permutation maxd perm_str =
     (if CHR '','' \<in> set perm_str \<or> CHR '' '' \<in> set perm_str
      then int_each maxd (filter (\<lambda>x. py_strip x \<noteq> []) (py_split (replace_comma perm_str)))
      else int_each maxd (map (\<lambda>x. [x]) perm_str))"

definition check_permutation :: "int list \<Rightarrow> exn + int list" where
  "check_permutation perm =
     (if length perm \<noteq> 9
        then Inl (ValueError ''Permutation must contain exactly 9 numbers'')
      else if set perm \<noteq> set [1..9]
        then Inl (ValueError ''Permutation must contain numbers 1-9 exactly once each'')
      else Inr perm)"

definition validate_permutation :: "nat \<Rightarrow> string \<Rightarrow> int list step" where
  "validate_permutation maxd perm_str =
     (case parse_permutation maxd perm_str of
        Inl e \<Rightarrow> ([Print (ErrorParsingPermutation e)], Inl 1)
      | Inr perm \<Rightarrow>
          (case check_permutation perm of
             Inl e \<Rightarrow> ([Print (ErrorParsingPermutation e)], Inl 1)
           | Inr p \<Rightarrow> ([], Inr p)))"

text \<open>\<^verbatim>\<open>validate_permutation\<close> of \<^verbatim>\<open>src/gifboxes/gif_unveil.py\<close>: comma-separated only.\<close>

definition gifboxes_parse_permutation :: "nat \<Rightarrow> string \<Rightarrow> exn + int list" where
  "gifboxes_parse_permutation maxd perm_str =
     int_each maxd (filter (\<lambda>x. py_strip x \<noteq> []) (py_split_on (CHR '','') perm_str))"

definition gifboxes_validate_permutation :: "nat \<Rightarrow> string \<Rightarrow> int list step" where
  "gifboxes_validate_permutation maxd perm_str =
     (case gifboxes_parse_permutation maxd perm_str of
        Inl e \<Rightarrow> ([Print (ErrorParsingPermutation e)], Inl 1)
      | Inr perm \<Rightarrow>
          (case check_permutation perm of
             Inl e \<Rightarrow> ([Print (ErrorParsingPermutation e)], Inl 1)
           | Inr p \<Rightarrow> ([], Inr p)))"

section \<open>Images and the imaging library's operations\<close>

definition valid_image :: "pil_image \<Rightarrow> bool" where
  "valid_image img =
     (length (rows img) = size_h img \<and> list_all (\<lambda>r. length r = size_w img) (rows img))"

text \<open>\<^verbatim>\<open>img.getpixel((x, y))\<close> for a position inside the image.\<close>

definition getpixel :: "pil_image \<Rightarrow> nat \<Rightarrow> nat \<Rightarrow> rgb" where
  "getpixel img x y = rows img ! y ! x"

text \<open>\<^verbatim>\<open>Image.new('RGB', (width, height), color)\<close>.\<close>

definition Image_new :: "nat \<Rightarrow> nat \<Rightarrow> rgb \<Rightarrow> pil_image" where
  "Image_new width height color =
     \<lparr>size_w = width, size_h = height, rows = replicate height (replicate width color)\<rparr>"

text \<open>
  \<^verbatim>\<open>img.crop((x1, y1, x2, y2))\<close>: a new image of size \<open>(x2 - x1, y2 - y1)\<close> holding the
  pixels of the box; a position of the box outside the image reads as black. A box
  whose right edge is left of its left edge, or whose lower edge is above its upper
  edge, raises \<^verbatim>\<open>ValueError\<close>.
\<close>

definition crop_pixel :: "pil_image \<Rightarrow> int \<Rightarrow> int \<Rightarrow> rgb" where
  "crop_pixel img x y =
     (if 0 \<le> x \<and> x < int (size_w img) \<and> 0 \<le> y \<and> y < int (size_h img)
      then getpixel img (nat x) (nat y) else (0, 0, 0))"

fun Image_crop :: "pil_image \<Rightarrow> rect \<Rightarrow> exn + pil_image" where
  "Image_crop img (x1, y1, x2, y2) =
     (if x2 < x1 then Inl (ValueError ''Coordinate right is less than left'')
      else if y2 < y1 then Inl (ValueError ''Coordinate lower is less than upper'')
      else Inr \<lparr>size_w = nat (x2 - x1), size_h = nat (y2 - y1),
                rows = map (\<lambda>j. map (\<lambda>i. crop_pixel img (x1 + int i) (y1 + int j))
                                   [0..<nat (x2 - x1)])
                           [0..<nat (y2 - y1)]\<rparr>)"

text \<open>
  \<^verbatim>\<open>frame.paste(region, (x, y))\<close>: the pixels of \<open>frame\<close> inside the box
  \<open>(x, y, x + region.width, y + region.height)\<close> become those of \<open>region\<close>; the part of
  the box outside \<open>frame\<close> is dropped. The library changes \<open>frame\<close> in place; here the
  changed frame is returned.
\<close>

fun Image_paste :: "pil_image \<Rightarrow> pil_image \<Rightarrow> int \<times> int \<Rightarrow> pil_image" where
  "Image_paste frame region (x, y) =
     frame\<lparr>rows :=
       map (\<lambda>j. map (\<lambda>i.
                  if x \<le> int i \<and> int i < x + int (size_w region) \<and>
                     y \<le> int j \<and> int j < y + int (size_h region)
                  then getpixel region (nat (int i - x)) (nat (int j - y))
                  else getpixel frame i j)
                [0..<size_w frame])
           [0..<size_h frame]\<rparr>"

text \<open>
  What \<^verbatim>\<open>Image.open(path)\<close> gives once its pixels are read: the pixels, taken in their
  \<^verbatim>\<open>RGB\<close> rendering (so that \<^verbatim>\<open>convert('RGB')\<close>, which is applied to every image of
  another mode, changes nothing here), and the EXIF orientation tag if the file has one.
\<close>

record decoded_image =
  pixels :: pil_image
  exif_orientation :: "nat option"

text \<open>
  \<^verbatim>\<open>img.transpose(method)\<close> builds an image of the given size whose pixel \<open>(x, y)\<close> is the
  pixel \<open>src x y\<close> of \<open>img\<close>.
\<close>

definition remap :: "nat \<Rightarrow> nat \<Rightarrow> (nat \<Rightarrow> nat \<Rightarrow> nat \<times> nat) \<Rightarrow> pil_image \<Rightarrow> pil_image" where
  "remap width height src img =
     \<lparr>size_w = width, size_h = height,
      rows = map (\<lambda>y. map (\<lambda>x. getpixel img (fst (src x y)) (snd (src x y))) [0..<width])
                 [0..<height]\<rparr>"

text \<open>
  \<^verbatim>\<open>ImageOps.exif_transpose(img)\<close>: orientations 2 to 8 select \<^verbatim>\<open>FLIP_LEFT_RIGHT\<close>,
  \<^verbatim>\<open>ROTATE_180\<close>, \<^verbatim>\<open>FLIP_TOP_BOTTOM\<close>, \<^verbatim>\<open>TRANSPOSE\<close>, \<^verbatim>\<open>ROTATE_270\<close>, \<^verbatim>\<open>TRANSVERSE\<close>
  and \<^verbatim>\<open>ROTATE_90\<close>; any other value, or no tag, leaves the image as it is.
\<close>

definition exif_transpose :: "decoded_image \<Rightarrow> pil_image" where
  "exif_transpose d =
     (let img = pixels d; w = size_w img; h = size_h img in
      if exif_orientation d = Some 2 then remap w h (\<lambda>x y. (w - 1 - x, y)) img
      else if exif_orientation d = Some 3 then remap w h (\<lambda>x y. (w - 1 - x, h - 1 - y)) img
      else if exif_orientation d = Some 4 then remap w h (\<lambda>x y. (x, h - 1 - y)) img
      else if exif_orientation d = Some 5 then remap h w (\<lambda>x y. (y, x)) img
      else if exif_orientation d = Some 6 then remap h w (\<lambda>x y. (y, h - 1 - x)) img
      else if exif_orientation d = Some 7 then remap h w (\<lambda>x y. (w - 1 - y, h - 1 - x)) img
      else if exif_orientation d = Some 8 then remap h w (\<lambda>x y. (w - 1 - y, x)) img
      else img)"

section \<open>Floating point\<close>

text \<open>
  A Python \<^verbatim>\<open>float\<close> is a double: a rational, an infinity or a NaN. The result of an
  arithmetic operation is the exact result rounded to a double; the rounding function
  \<open>rnd\<close> is a parameter. \<^verbatim>\<open>int(x)\<close> cuts the fraction of a finite \<open>x\<close> off (towards
  zero) and raises on an infinity and on a NaN. The integers multiplied and divided by
  are converted to doubles first, exactly for the 1000 and the frame count used here.
\<close>

datatype pyfloat = Finite rat | PosInf | NegInf | NaN

definition float_mul_int :: "(rat \<Rightarrow> pyfloat) \<Rightarrow> pyfloat \<Rightarrow> int \<Rightarrow> pyfloat" where
  "float_mul_int rnd x n =
     (case x of
        Finite q \<Rightarrow> rnd (q * of_int n)
      | PosInf \<Rightarrow> (if 0 < n then PosInf else if n < 0 then NegInf else NaN)
      | NegInf \<Rightarrow> (if 0 < n then NegInf else if n < 0 then PosInf else NaN)
      | NaN \<Rightarrow> NaN)"

definition float_div_int :: "(rat \<Rightarrow> pyfloat) \<Rightarrow> pyfloat \<Rightarrow> int \<Rightarrow> exn + pyfloat" where
  "float_div_int rnd x n =
     (if n = 0 then Inl (ZeroDivisionError ''float division by zero'')
      else Inr (case x of
                  Finite q \<Rightarrow> rnd (q / of_int n)
                | PosInf \<Rightarrow> (if 0 < n then PosInf else NegInf)
                | NegInf \<Rightarrow> (if 0 < n then NegInf else PosInf)
                | NaN \<Rightarrow> NaN))"

definition py_trunc :: "rat \<Rightarrow> int" where
  "py_trunc q = (if 0 \<le> q then \<lfloor>q\<rfloor> else \<lceil>q\<rceil>)"

definition int_of_float :: "pyfloat \<Rightarrow> exn + int" where
  "int_of_float x =
     (case x of
        Finite q \<Rightarrow> Inr (py_trunc q)
      | PosInf \<Rightarrow> Inl (OverflowError ''cannot convert float infinity to integer'')
      | NegInf \<Rightarrow> Inl (OverflowError ''cannot convert float infinity to integer'')
      | NaN \<Rightarrow> Inl (ValueError ''cannot convert float NaN to integer''))"

text \<open>\<^verbatim>\<open>int((duration_seconds * 1000) / len(frames))\<close>.\<close>

definition frame_duration_ms :: "(rat \<Rightarrow> pyfloat) \<Rightarrow> pyfloat \<Rightarrow> nat \<Rightarrow> exn + int" where
  "frame_duration_ms rnd duration_seconds n_frames =
     (case float_div_int rnd (float_mul_int rnd duration_seconds 1000) (int n_frames) of
        Inl e \<Rightarrow> Inl e
      | Inr x \<Rightarrow> int_of_float x)"

section \<open>Frame renderer\<close>

text \<open>
  The part of \<^verbatim>\<open>create_unveil_gif\<close> between reading the image and saving. A frame under
  construction is kept with the list of cell indices pasted into it so far, in order;
  the list is a record of the \<^verbatim>\<open>paste\<close> calls and is never read by the program.
\<close>

type_synonym frame_state = "pil_image \<times> int list"

definition create_gray_frame :: "nat \<Rightarrow> nat \<Rightarrow> pil_image" where
  "create_gray_frame width height = Image_new width height (128, 128, 128)"

text \<open>The inner loop \<^verbatim>\<open>for i in range(frame_num)\<close>, over the values of \<open>i\<close> still to come.\<close>

fun reveal_cells ::
  "pil_image \<Rightarrow> rect list \<Rightarrow> int list \<Rightarrow> nat list \<Rightarrow> frame_state \<Rightarrow> exn + frame_state" where
  "reveal_cells original_img grid_coords permutation [] st = Inr st"
| "reveal_cells original_img grid_coords permutation (i # rest) (frame, pasted) =
     (case py_index permutation (int i) of
        Inl e \<Rightarrow> Inl e
      | Inr p \<Rightarrow>
          (let cell_index = p - 1 in
           case py_index grid_coords cell_index of
             Inl e \<Rightarrow> Inl e
           | Inr (x1, y1, x2, y2) \<Rightarrow>
               (case Image_crop original_img (x1, y1, x2, y2) of
                  Inl e \<Rightarrow> Inl e
                | Inr region \<Rightarrow>
                    reveal_cells original_img grid_coords permutation rest
                      (Image_paste frame region (x1, y1), pasted @ [cell_index]))))"

text \<open>The outer loop \<^verbatim>\<open>for frame_num in range(1, 10)\<close>.\<close>

fun build_frames ::
  "pil_image \<Rightarrow> rect list \<Rightarrow> int list \<Rightarrow> nat list \<Rightarrow> frame_state list \<Rightarrow> exn + frame_state list"
  where
  "build_frames original_img grid_coords permutation [] frames = Inr frames"
| "build_frames original_img grid_coords permutation (frame_num # rest) frames =
     (case reveal_cells original_img grid_coords permutation [0..<frame_num]
             (create_gray_frame (size_w original_img) (size_h original_img), []) of
        Inl e \<Rightarrow> Inl e
      | Inr frame \<Rightarrow> build_frames original_img grid_coords permutation rest (frames @ [frame]))"

definition unveil_frames :: "pil_image \<Rightarrow> int list \<Rightarrow> exn + frame_state list" where
  "unveil_frames original_img permutation =
     (let width = size_w original_img;
          height = size_h original_img;
          grid_coords = get_grid_coordinates (int width) (int height)
      in build_frames original_img grid_coords permutation [1..<10]
           [(create_gray_frame width height, [])])"

text \<open>The same part of \<^verbatim>\<open>src/gifboxes/gif_unveil.py\<close>.\<close>

definition gifboxes_create_gray_frame :: "nat \<Rightarrow> nat \<Rightarrow> pil_image" where
  "gifboxes_create_gray_frame width height = Image_new width height (128, 128, 128)"

fun gifboxes_reveal_cells ::
  "pil_image \<Rightarrow> rect list \<Rightarrow> int list \<Rightarrow> nat list \<Rightarrow> frame_state \<Rightarrow> exn + frame_state" where
  "gifboxes_reveal_cells original_img grid_coords permutation [] st = Inr st"
| "gifboxes_reveal_cells original_img grid_coords permutation (i # rest) (frame, pasted) =
     (case py_index permutation (int i) of
        Inl e \<Rightarrow> Inl e
      | Inr p \<Rightarrow>
          (let cell_index = p - 1 in
           case py_index grid_coords cell_index of
             Inl e \<Rightarrow> Inl e
           | Inr (x1, y1, x2, y2) \<Rightarrow>
               (case Image_crop original_img (x1, y1, x2, y2) of
                  Inl e \<Rightarrow> Inl e
                | Inr region \<Rightarrow>
                    gifboxes_reveal_cells original_img grid_coords permutation rest
                      (Image_paste frame region (x1, y1), pasted @ [cell_index]))))"

fun gifboxes_build_frames ::
  "pil_image \<Rightarrow> rect list \<Rightarrow> int list \<Rightarrow> nat list \<Rightarrow> frame_state list \<Rightarrow> exn + frame_state list"
  where
  "gifboxes_build_frames original_img grid_coords permutation [] frames = Inr frames"
| "gifboxes_build_frames original_img grid_coords permutation (frame_num # rest) frames =
     (case gifboxes_reveal_cells original_img grid_coords permutation [0..<frame_num]
             (gifboxes_create_gray_frame (size_w original_img) (size_h original_img), []) of
        Inl e \<Rightarrow> Inl e
      | Inr frame \<Rightarrow>
          gifboxes_build_frames original_img grid_coords permutation rest (frames @ [frame]))"

definition gifboxes_unveil_frames :: "pil_image \<Rightarrow> int list \<Rightarrow> exn + frame_state list" where
  "gifboxes_unveil_frames original_img permutation =
     (let width = size_w original_img;
          height = size_h original_img;
          grid_coords = gifboxes_get_grid_coordinates (int width) (int height)
      in gifboxes_build_frames original_img grid_coords permutation [1..<10]
           [(gifboxes_create_gray_frame width height, [])])"

section \<open>The programs\<close>

text \<open>
  What the programs take from outside: the interpreter's digit limit and rounding of
  doubles, \<^verbatim>\<open>Path(p).exists()\<close> (which raises where the file system refuses the
  lookup), \<^verbatim>\<open>str(Path(p).with_suffix('.gif'))\<close> (which raises on a path with an empty
  name), \<^verbatim>\<open>Image.open\<close> with the reading of the pixels, the GIF writer behind \<^verbatim>\<open>save\<close>,
  and what \<^verbatim>\<open>print\<close> raises for a line it cannot write (\<open>None\<close> when the line is
  written).

  \<open>print_raises\<close> is consulted for the one \<^verbatim>\<open>print\<close> that stands inside a \<^verbatim>\<open>try\<close> block
  without being in a handler, the line after \<^verbatim>\<open>save\<close>: an exception there is caught by
  the program and changes how the run ends. An exception of any other \<^verbatim>\<open>print\<close> is not
  caught by the program, the interpreter then ends the run with a traceback and status 1;
  those lines are taken as written.
\<close>

record env =
  int_max_str_digits :: nat
  float_round :: "rat \<Rightarrow> pyfloat"
  path_exists :: "string \<Rightarrow> exn + bool"
  with_suffix_gif :: "string \<Rightarrow> exn + string"
  image_open :: "string \<Rightarrow> exn + decoded_image"
  gif_save :: "save_call \<Rightarrow> save_outcome"
  print_raises :: "message \<Rightarrow> exn option"

text \<open>The \<^verbatim>\<open>try\<close> body of \<^verbatim>\<open>create_unveil_gif\<close> in \<^verbatim>\<open>src/gif_unveil.py\<close>: the events
  it causes, and the exception that leaves it, if any.\<close>

definition unveil_body ::
  "env \<Rightarrow> string \<Rightarrow> int list \<Rightarrow> string \<Rightarrow> pyfloat \<Rightarrow> event list \<times> (exn + unit)" where
  "unveil_body ev image_path permutation output_path duration_seconds =
     (case image_open ev image_path of
        Inl e \<Rightarrow> ([ImageOpen image_path], Inl e)
      | Inr opened \<Rightarrow>
          (let original_img = exif_transpose opened in
           case unveil_frames original_img permutation of
             Inl e \<Rightarrow> ([ImageOpen image_path], Inl e)
           | Inr frames \<Rightarrow>
               (case frame_duration_ms (float_round ev) duration_seconds (length frames) of
                  Inl e \<Rightarrow> ([ImageOpen image_path], Inl e)
                | Inr frame_duration \<Rightarrow>
                    (case map fst frames of
                       [] \<Rightarrow> ([ImageOpen image_path], Inl (IndexError ''list index out of range''))
                     | first # others \<Rightarrow>
                         (let call = \<lparr>save_path = output_path, save_first = first,
                                      save_append_images = others,
                                      save_duration = frame_duration, save_loop = None\<rparr>
                          in case gif_save ev call of
                               Saved \<Rightarrow>
                                 (case print_raises ev (GIFCreated output_path) of
                                    None \<Rightarrow>
                                      ([ImageOpen image_path, Save call Saved,
                                        Print (GIFCreated output_path)], Inr ())
                                  | Some e \<Rightarrow>
                                      ([ImageOpen image_path, Save call Saved], Inl e))
                             | SaveFailed e left \<Rightarrow>
                                 ([ImageOpen image_path, Save call (SaveFailed e left)],
                                  Inl e))))))"

definition create_unveil_gif ::
  "env \<Rightarrow> string \<Rightarrow> int list \<Rightarrow> string \<Rightarrow> pyfloat \<Rightarrow> unit step" where
  "create_unveil_gif ev image_path permutation output_path duration_seconds =
     (case unveil_body ev image_path permutation output_path duration_seconds of
        (evs, Inl e) \<Rightarrow> (evs @ [Print (ErrorCreatingGIF e)], Inl 1)
      | (evs, Inr u) \<Rightarrow> (evs, Inr u))"

text \<open>The parsed command line of \<^verbatim>\<open>src/gif_unveil.py\<close>, and \<^verbatim>\<open>main\<close> after
  \<^verbatim>\<open>parse_args\<close>: the events of the run and its exit status.\<close>

record cli_args =
  arg_image :: string
  arg_permutation :: string
  arg_output :: "string option"
  arg_duration :: pyfloat

definition main :: "env \<Rightarrow> cli_args \<Rightarrow> event list \<times> int" where
  "main ev args =
     (case path_exists ev (arg_image args) of
        Inl e \<Rightarrow> ([Print (Traceback e)], 1)
      | Inr found \<Rightarrow>
          if \<not> found
            then ([Print (ImageNotFound (arg_image args))], 1)
          else
            case (case arg_output args of
                    None \<Rightarrow> with_suffix_gif ev (arg_image args)
                  | Some out \<Rightarrow> Inr out) of
              Inl e \<Rightarrow> ([Print (Traceback e)], 1)
            | Inr output \<Rightarrow>
                (case validate_permutation (int_max_str_digits ev) (arg_permutation args) of
                   (evs, Inl status) \<Rightarrow> (evs, status)
                 | (evs, Inr permutation) \<Rightarrow>
                     (case create_unveil_gif ev (arg_image args) permutation output
                             (arg_duration args) of
                        (evs', Inl status) \<Rightarrow> (evs @ evs', status)
                      | (evs', Inr u) \<Rightarrow> (evs @ evs', 0))))"

text \<open>\<^verbatim>\<open>create_unveil_gif\<close> and \<^verbatim>\<open>main\<close> of \<^verbatim>\<open>src/gifboxes/gif_unveil.py\<close>: no
  orientation step, a fixed duration, \<^verbatim>\<open>loop=0\<close>, and an output path that always has a
  value.\<close>

definition gifboxes_unveil_body ::
  "env \<Rightarrow> string \<Rightarrow> int list \<Rightarrow> string \<Rightarrow> event list \<times> (exn + unit)" where
  "gifboxes_unveil_body ev image_path permutation output_path =
     (case image_open ev image_path of
        Inl e \<Rightarrow> ([ImageOpen image_path], Inl e)
      | Inr opened \<Rightarrow>
          (let original_img = pixels opened in
           case gifboxes_unveil_frames original_img permutation of
             Inl e \<Rightarrow> ([ImageOpen image_path], Inl e)
           | Inr frames \<Rightarrow>
               (case map fst frames of
                  [] \<Rightarrow> ([ImageOpen image_path], Inl (IndexError ''list index out of range''))
                | first # others \<Rightarrow>
                    (let call = \<lparr>save_path = output_path, save_first = first,
                                 save_append_images = others,
                                 save_duration = 500, save_loop = Some 0\<rparr>
                     in case gif_save ev call of
                          Saved \<Rightarrow>
                            (case print_raises ev (GIFCreated output_path) of
                               None \<Rightarrow>
                                 ([ImageOpen image_path, Save call Saved,
                                   Print (GIFCreated output_path)], Inr ())
                             | Some e \<Rightarrow>
                                 ([ImageOpen image_path, Save call Saved], Inl e))
                        | SaveFailed e left \<Rightarrow>
                            ([ImageOpen image_path, Save call (SaveFailed e left)],
                             Inl e)))))"

definition gifboxes_create_unveil_gif ::
  "env \<Rightarrow> string \<Rightarrow> int list \<Rightarrow> string \<Rightarrow> unit step" where
  "gifboxes_create_unveil_gif ev image_path permutation output_path =
     (case gifboxes_unveil_body ev image_path permutation output_path of
        (evs, Inl e) \<Rightarrow> (evs @ [Print (ErrorCreatingGIF e)], Inl 1)
      | (evs, Inr u) \<Rightarrow> (evs, Inr u))"

text \<open>The parsed command line of \<^verbatim>\<open>src/gifboxes/gif_unveil.py\<close>; the parser gives
  \<open>gb_output\<close> the default below when the command line has no \<^verbatim>\<open>-o\<close>.\<close>

record gifboxes_cli_args =
  gb_image :: string
  gb_permutation :: string
  gb_output :: string

definition gifboxes_default_output :: string where
  "gifboxes_default_output = ''output.gif''"

definition gifboxes_main :: "env \<Rightarrow> gifboxes_cli_args \<Rightarrow> event list \<times> int" where
  "gifboxes_main ev args =
     (case path_exists ev (gb_image args) of
        Inl e \<Rightarrow> ([Print (Traceback e)], 1)
      | Inr found \<Rightarrow>
          if \<not> found
            then ([Print (ImageNotFound (gb_image args))], 1)
          else
            case gifboxes_validate_permutation (int_max_str_digits ev) (gb_permutation args) of
              (evs, Inl status) \<Rightarrow> (evs, status)
            | (evs, Inr permutation) \<Rightarrow>
                (case gifboxes_create_unveil_gif ev (gb_image args) permutation
                        (gb_output args) of
                   (evs', Inl status) \<Rightarrow> (evs @ evs', status)
                 | (evs', Inr u) \<Rightarrow> (evs @ evs', 0)))"

section \<open>Notions used to state the claims\<close>

text \<open>
  A valid permutation in the specification's words: 9 distinct integers drawn from
  \<open>1 .. 9\<close>.
\<close>

definition is_permutation :: "int list \<Rightarrow> bool" where
  "is_permutation perm = (length perm = 9 \<and> distinct perm \<and> set perm \<subseteq> {1..9})"

text \<open>
  One pass of the inner loop's body on the frame, for a box that \<^verbatim>\<open>crop\<close> accepts, and
  the frame and paste record that \<open>k\<close> passes build from a gray frame: the closed form
  of frame \<open>k\<close>, proved equal to what \<open>unveil_frames\<close> computes.
\<close>

definition paste_box :: "pil_image \<Rightarrow> pil_image \<Rightarrow> rect \<Rightarrow> pil_image" where
  "paste_box original_img frame box =
     (case Image_crop original_img box of
        Inl e \<Rightarrow> frame
      | Inr region \<Rightarrow> Image_paste frame region (fst box, fst (snd box)))"

definition frame_at :: "pil_image \<Rightarrow> int list \<Rightarrow> nat \<Rightarrow> frame_state" where
  "frame_at original_img permutation k =
     (fold (\<lambda>i frame.
              paste_box original_img frame
                (get_grid_coordinates (int (size_w original_img)) (int (size_h original_img)) !
                   nat (permutation ! i - 1)))
           [0..<k] (create_gray_frame (size_w original_img) (size_h original_img)),
      map (\<lambda>i. permutation ! i - 1) [0..<k])"

text \<open>A 3 by 3 image with nine different pixels, for the concrete instances.\<close>

definition sample_image :: pil_image where
  "sample_image =
     \<lparr>size_w = 3, size_h = 3,
      rows = [[(1, 0, 0), (2, 0, 0), (3, 0, 0)],
              [(4, 0, 0), (5, 0, 0), (6, 0, 0)],
              [(7, 0, 0), (8, 0, 0), (9, 0, 0)]]\<rparr>"

text \<open>
  Whether some pixel of an image inside a box differs from the gray fill: for a frame,
  whether something of the cell is to be seen in it.
\<close>

definition coloured_in :: "pil_image \<Rightarrow> rect \<Rightarrow> bool" where
  "coloured_in img box =
     list_ex (\<lambda>y. list_ex (\<lambda>x. in_rect box (int x, int y) \<and> getpixel img x y \<noteq> (128, 128, 128))
                       [0..<size_w img])
             [0..<size_h img]"

text \<open>
  Reading a run's events: whether a printed line is an error message, whether an event
  is the opening of the image or a \<^verbatim>\<open>save\<close> call, whether a \<^verbatim>\<open>save\<close> call returned
  (the output file is complete) or raised leaving an incomplete file, and the frames
  and calls the encoder was handed.
\<close>

fun is_error_message :: "message \<Rightarrow> bool" where
  "is_error_message (GIFCreated p) = False"
| "is_error_message m = True"

fun prints_error :: "event \<Rightarrow> bool" where
  "prints_error (Print m) = is_error_message m"
| "prints_error e = False"

fun is_image_open :: "event \<Rightarrow> bool" where
  "is_image_open (ImageOpen p) = True"
| "is_image_open e = False"

fun is_save :: "event \<Rightarrow> bool" where
  "is_save (Save c r) = True"
| "is_save e = False"

fun completes_file :: "event \<Rightarrow> bool" where
  "completes_file (Save c Saved) = True"
| "completes_file e = False"

fun leaves_partial_file :: "event \<Rightarrow> bool" where
  "leaves_partial_file (Save c (SaveFailed e left)) = left"
| "leaves_partial_file e = False"

fun save_frames_of :: "event \<Rightarrow> pil_image list" where
  "save_frames_of (Save c r) = save_first c # save_append_images c"
| "save_frames_of e = []"

definition frames_handed_over :: "event list \<Rightarrow> pil_image list" where
  "frames_handed_over events = concat (map save_frames_of events)"

definition saves :: "event list \<Rightarrow> save_call list" where
  "saves events = concat (map (\<lambda>e. case e of Save c r \<Rightarrow> [c] | _ \<Rightarrow> []) events)"

text \<open>
  The ways a run can end. With status 0: no error message, and one \<^verbatim>\<open>save\<close> call, which
  returned. With another status: an error message, and either no \<^verbatim>\<open>save\<close> call, or one
  that raised, or one that returned followed by a \<^verbatim>\<open>print\<close> that raised.
\<close>

definition run_ends :: "env \<Rightarrow> event list \<times> int \<Rightarrow> bool" where
  "run_ends ev r =
     (let events = fst r; status = snd r in
      (status = 0 \<and> \<not> list_ex prints_error events \<and>
       (\<exists>call. filter is_save events = [Save call Saved])) \<or>
      (status \<noteq> 0 \<and> list_ex prints_error events \<and>
       (filter is_save events = [] \<or>
        (\<exists>call e left. filter is_save events = [Save call (SaveFailed e left)]) \<or>
        (\<exists>call. filter is_save events = [Save call Saved] \<and>
                print_raises ev (GIFCreated (save_path call)) \<noteq> None))))"

text \<open>
  A \<^verbatim>\<open>save\<close> call and an event without the encoding parameters (duration and loop), to
  compare the runs of the two programs apart from them.
\<close>

definition erase_call :: "save_call \<Rightarrow> save_call" where
  "erase_call c = c\<lparr>save_duration := 0, save_loop := None\<rparr>"

fun erase_encoding :: "event \<Rightarrow> event" where
  "erase_encoding (Save c r) = Save (erase_call c) r"
| "erase_encoding e = e"

text \<open>
  Concrete surroundings for the instances: the image file \<^verbatim>\<open>photo.png\<close> exists and
  decodes to \<open>sample_image\<close>, doubles are rounded exactly, \<^verbatim>\<open>save\<close> returns and every
  line is printed. Variants of it: \<^verbatim>\<open>save\<close> raises after writing part of the file; the
  line after \<^verbatim>\<open>save\<close> cannot be printed; the image path is \<^verbatim>\<open>.\<close>, which exists and has
  no name to put a suffix on; the image carries EXIF orientation 6.
\<close>

definition sample_env :: env where
  "sample_env =
     \<lparr>int_max_str_digits = 4300,
      float_round = Finite,
      path_exists = (\<lambda>p. Inr (p = ''photo.png'')),
      with_suffix_gif = (\<lambda>p. Inr ''photo.gif''),
      image_open = (\<lambda>p. Inr \<lparr>pixels = sample_image, exif_orientation = None\<rparr>),
      gif_save = (\<lambda>c. Saved),
      print_raises = (\<lambda>m. None)\<rparr>"

definition sample_args :: cli_args where
  "sample_args = \<lparr>arg_image = ''photo.png'', arg_permutation = ''987654321'',
                  arg_output = None, arg_duration = Finite 12\<rparr>"

definition gifboxes_sample_args :: gifboxes_cli_args where
  "gifboxes_sample_args = \<lparr>gb_image = ''photo.png'', gb_permutation = ''9,8,7,6,5,4,3,2,1'',
                           gb_output = gifboxes_default_output\<rparr>"

definition disk_full_env :: env where
  "disk_full_env = sample_env\<lparr>gif_save := (\<lambda>c. SaveFailed (OSError ''No space left on device'') True)\<rparr>"

definition unprintable_env :: env where
  "unprintable_env =
     sample_env\<lparr>print_raises :=
       (\<lambda>m. case m of GIFCreated p \<Rightarrow> Some (ValueError ''codec cannot encode character'')
              | _ \<Rightarrow> None)\<rparr>"

definition unnamed_path_env :: env where
  "unnamed_path_env =
     sample_env\<lparr>path_exists := (\<lambda>p. Inr (p = ''.'')),
                with_suffix_gif := (\<lambda>p. Inl (ValueError ''PosixPath has an empty name''))\<rparr>"

definition rotated_env :: env where
  "rotated_env =
     sample_env\<lparr>image_open := (\<lambda>p. Inr \<lparr>pixels = sample_image, exif_orientation = Some 6\<rparr>)\<rparr>"

section \<open>The partition, written out\<close>

lemma upt_3: "[0..<3] = [0, Suc 0, 2]"
  by (simp add: upt_rec)

lemma get_grid_coordinates_unfold:
  "get_grid_coordinates w h =
     [(0, 0, w div 3, h div 3),
      (w div 3, 0, w div 3 + w div 3, h div 3),
      (2 * (w div 3), 0, w, h div 3),
      (0, h div 3, w div 3, h div 3 + h div 3),
      (w div 3, h div 3, w div 3 + w div 3, h div 3 + h div 3),
      (2 * (w div 3), h div 3, w, h div 3 + h div 3),
      (0, 2 * (h div 3), w div 3, h),
      (w div 3, 2 * (h div 3), w div 3 + w div 3, h),
      (2 * (w div 3), 2 * (h div 3), w, h)]"
  by (simp add: get_grid_coordinates_def grid_cell_def upt_3 Let_def)

lemma gifboxes_get_grid_coordinates_eq:
  "gifboxes_get_grid_coordinates w h = get_grid_coordinates w h"
  by (simp add: gifboxes_get_grid_coordinates_def get_grid_coordinates_def grid_cell_def)

lemma less_3_cases: "k < 3 \<Longrightarrow> k = 0 \<or> k = Suc 0 \<or> k = (2::nat)"
  by arith

lemma less_9_cases:
  "i < 9 \<Longrightarrow> i = 0 \<or> i = Suc 0 \<or> i = 2 \<or> i = 3 \<or> i = 4 \<or> i = 5 \<or> i = 6 \<or> i = 7 \<or> i = (8::nat)"
  by arith

lemma length_get_grid_coordinates: "length (get_grid_coordinates w h) = 9"
  by (simp add: get_grid_coordinates_unfold)

lemma get_grid_coordinates_nth:
  assumes "i < 9"
  shows "get_grid_coordinates w h ! i = grid_cell w h (w div 3) (h div 3) (i div 3) (i mod 3)"
  using less_9_cases [OF assms]
  by (elim disjE) (simp_all add: get_grid_coordinates_unfold grid_cell_def Let_def)

lemma in_rect_grid_cell:
  "in_rect (grid_cell w h cw ch r c) (x, y) = (in_span w cw c x \<and> in_span h ch r y)"
  by (auto simp add: grid_cell_def in_span_def Let_def)

lemma span_disjoint:
  assumes "0 \<le> cell" "2 * cell \<le> full" "k < 3" "k' < 3" "k \<noteq> k'"
  shows "\<not> (in_span full cell k x \<and> in_span full cell k' x)"
  using less_3_cases [OF assms(3)] less_3_cases [OF assms(4)] assms(1,2,5)
  by (auto simp add: in_span_def)

lemma span_cover:
  assumes "0 \<le> cell" "2 * cell \<le> full"
  shows "(\<exists>k<3. in_span full cell k x) = (0 \<le> x \<and> x < full)"
proof
  assume "\<exists>k<3. in_span full cell k x"
  then obtain k where k: "k < 3" "in_span full cell k x" by blast
  from less_3_cases [OF k(1)] k(2) assms show "0 \<le> x \<and> x < full"
    by (auto simp add: in_span_def)
next
  assume x: "0 \<le> x \<and> x < full"
  have "in_span full cell 0 x \<or> in_span full cell 1 x \<or> in_span full cell 2 x"
    using x assms by (auto simp add: in_span_def)
  then show "\<exists>k<3. in_span full cell k x"
  proof (elim disjE)
    assume "in_span full cell 0 x"
    then show ?thesis by (intro exI [of _ 0]) simp
  next
    assume "in_span full cell 1 x"
    then show ?thesis by (intro exI [of _ 1]) simp
  next
    assume "in_span full cell 2 x"
    then show ?thesis by (intro exI [of _ 2]) simp
  qed
qed

lemma div3_bounds:
  assumes "0 \<le> (w::int)"
  shows "0 \<le> w div 3" "2 * (w div 3) \<le> w" "3 * (w div 3) \<le> w"
  using assms by auto

lemma grid_disjoint:
  assumes "0 \<le> w" "0 \<le> h" "i < 9" "j < 9" "i \<noteq> j"
  shows "\<not> (in_rect (get_grid_coordinates w h ! i) p \<and> in_rect (get_grid_coordinates w h ! j) p)"
proof -
  obtain x y where p: "p = (x, y)" by (cases p)
  have rc: "i div 3 \<noteq> j div 3 \<or> i mod 3 \<noteq> j mod 3"
    using assms(5) by (metis div_mult_mod_eq)
  have lt: "i div 3 < 3" "j div 3 < 3" "i mod 3 < 3" "j mod 3 < 3"
    using assms(3,4) by auto
  show ?thesis
    using rc span_disjoint [OF div3_bounds(1,2) [OF assms(1)] lt(3,4), of x]
      span_disjoint [OF div3_bounds(1,2) [OF assms(2)] lt(1,2), of y]
    by (auto simp add: p get_grid_coordinates_nth assms(3,4) in_rect_grid_cell)
qed

lemma grid_cover:
  assumes "0 \<le> w" "0 \<le> h"
  shows "(\<exists>i<9. in_rect (get_grid_coordinates w h ! i) p) = in_bounds w h p"
proof -
  obtain x y where p: "p = (x, y)" by (cases p)
  have "(\<exists>i<9. in_rect (get_grid_coordinates w h ! i) (x, y)) =
        ((\<exists>c<3. in_span w (w div 3) c x) \<and> (\<exists>r<3. in_span h (h div 3) r y))"
  proof
    assume "\<exists>i<9. in_rect (get_grid_coordinates w h ! i) (x, y)"
    then obtain i where i: "i < 9" "in_rect (get_grid_coordinates w h ! i) (x, y)" by blast
    have lt: "i mod 3 < 3" "i div 3 < 3" using i(1) by auto
    have "in_span w (w div 3) (i mod 3) x" "in_span h (h div 3) (i div 3) y"
      using i by (simp_all add: get_grid_coordinates_nth in_rect_grid_cell)
    with lt show "(\<exists>c<3. in_span w (w div 3) c x) \<and> (\<exists>r<3. in_span h (h div 3) r y)"
      by blast
  next
    assume "(\<exists>c<3. in_span w (w div 3) c x) \<and> (\<exists>r<3. in_span h (h div 3) r y)"
    then obtain c r where cr: "c < 3" "r < 3" "in_span w (w div 3) c x" "in_span h (h div 3) r y"
      by blast
    have i: "3 * r + c < 9" "(3 * r + c) div 3 = r" "(3 * r + c) mod 3 = c"
      using cr(1,2) by auto
    have "get_grid_coordinates w h ! (3 * r + c) = grid_cell w h (w div 3) (h div 3) r c"
      using get_grid_coordinates_nth [OF i(1), of w h] by (simp only: i(2,3))
    then have "in_rect (get_grid_coordinates w h ! (3 * r + c)) (x, y)"
      using cr(3,4) by (simp only: in_rect_grid_cell)
    with i(1) show "\<exists>i<9. in_rect (get_grid_coordinates w h ! i) (x, y)" by blast
  qed
  then show ?thesis
    by (simp add: p span_cover [OF div3_bounds(1,2) [OF assms(1)]]
        span_cover [OF div3_bounds(1,2) [OF assms(2)]] conj_ac)
qed

section \<open>Claims about the grid partitioner\<close>

text \<open>
  C1 (as amended). For every width and height that are not negative, the partitioner
  returns exactly 9 boxes; the box at index \<open>3 * row + col\<close> is the one the loop body
  builds for \<open>row\<close> and \<open>col\<close> (row-major order); no pixel position lies in two of the
  boxes; and a pixel position lies in some box exactly when it lies in
  \<open>[0, width) \<times> [0, height)\<close>.
\<close>

theorem partition_tiles_image:
  assumes "0 \<le> width" "0 \<le> height"
  shows "length (get_grid_coordinates width height) = 9 \<and>
         (\<forall>row<3. \<forall>col<3.
            get_grid_coordinates width height ! (3 * row + col) =
              grid_cell width height (width div 3) (height div 3) row col) \<and>
         (\<forall>i<9. \<forall>j<9. i \<noteq> j \<longrightarrow>
            (\<forall>p. \<not> (in_rect (get_grid_coordinates width height ! i) p \<and>
                      in_rect (get_grid_coordinates width height ! j) p))) \<and>
         (\<forall>p. (\<exists>i<9. in_rect (get_grid_coordinates width height ! i) p) =
                in_bounds width height p)"
proof (intro conjI allI impI)
  show "length (get_grid_coordinates width height) = 9"
    by (rule length_get_grid_coordinates)
next
  fix row col :: nat
  assume rc: "row < 3" "col < 3"
  then have i: "3 * row + col < 9" "(3 * row + col) div 3 = row" "(3 * row + col) mod 3 = col"
    by auto
  show "get_grid_coordinates width height ! (3 * row + col) =
          grid_cell width height (width div 3) (height div 3) row col"
    using get_grid_coordinates_nth [OF i(1), of width height] by (simp only: i(2,3))
next
  fix i j :: nat and p :: "int \<times> int"
  assume "i < 9" "j < 9" "i \<noteq> j"
  then show "\<not> (in_rect (get_grid_coordinates width height ! i) p \<and>
                in_rect (get_grid_coordinates width height ! j) p)"
    by (rule grid_disjoint [OF assms])
next
  fix p :: "int \<times> int"
  show "(\<exists>i<9. in_rect (get_grid_coordinates width height ! i) p) = in_bounds width height p"
    by (rule grid_cover [OF assms])
qed

theorem partition_tiles_image_witness:
  "length (get_grid_coordinates 10 10) = 9 \<and>
   get_grid_coordinates 10 10 ! (3 * 1 + 2) = (6, 3, 10, 6) \<and>
   \<not> (in_rect (get_grid_coordinates 10 10 ! 4) (3, 3) \<and>
      in_rect (get_grid_coordinates 10 10 ! 0) (3, 3)) \<and>
   (\<exists>i<9. in_rect (get_grid_coordinates 10 10 ! i) (9, 9)) = in_bounds 10 10 (9, 9)"
proof -
  have h: "(0::int) \<le> 10" by simp
  note t = partition_tiles_image [OF h h]
  have "get_grid_coordinates 10 10 ! (3 * 1 + 2) = grid_cell 10 10 (10 div 3) (10 div 3) 1 2"
    using t [THEN conjunct2, THEN conjunct1, rule_format, of 1 2] by simp
  moreover have "\<not> (in_rect (get_grid_coordinates 10 10 ! 4) (3, 3) \<and>
                    in_rect (get_grid_coordinates 10 10 ! 0) (3, 3))"
    using t [THEN conjunct2, THEN conjunct2, THEN conjunct1, rule_format, of 4 0 "(3, 3)"]
    by simp
  moreover have "(\<exists>i<9. in_rect (get_grid_coordinates 10 10 ! i) (9, 9)) = in_bounds 10 10 (9, 9)"
    using t [THEN conjunct2, THEN conjunct2, THEN conjunct2, rule_format, of "(9, 9)"] .
  ultimately show ?thesis
    using t [THEN conjunct1] by (simp add: grid_cell_def)
qed

text \<open>
  The claim as stated, for every integer width and height, fails for a negative width:
  \<^verbatim>\<open>get_grid_coordinates(-1, 3)\<close> has \<open>(-2, 0, -1, 1)\<close> at index 2, a box that holds the
  position \<open>(-2, 0)\<close>, and \<open>[0, -1) \<times> [0, 3)\<close> is empty.
\<close>

theorem partition_negative_width_counterexample:
  "get_grid_coordinates (- 1) 3 ! 2 = (- 2, 0, - 1, 1) \<and>
   in_rect (get_grid_coordinates (- 1) 3 ! 2) (- 2, 0) \<and>
   \<not> in_bounds (- 1) 3 (- 2, 0)"
  by (simp add: get_grid_coordinates_unfold)

section \<open>Claims about the permutation validator\<close>

lemma set_upto_1_9: "set [1..9] = {1..9::int}"
  by simp

lemma check_permutation_Inr:
  "(check_permutation perm = Inr p) = (p = perm \<and> length perm = 9 \<and> set perm = {1..9})"
  by (auto simp add: check_permutation_def)

lemma check_permutation_Inl:
  "(\<exists>e. check_permutation perm = Inl e) = (length perm \<noteq> 9 \<or> set perm \<noteq> {1..9})"
  by (auto simp add: check_permutation_def)

lemma valid_permutation_distinct:
  assumes "length perm = 9" "set perm = {1..9::int}"
  shows "distinct perm"
proof -
  have "card (set perm) = length perm" using assms by simp
  then show ?thesis by (rule card_distinct)
qed

lemma valid_permutation_nth:
  assumes "length perm = 9" "set perm = {1..9::int}" "i < 9"
  shows "1 \<le> perm ! i \<and> perm ! i \<le> 9"
proof -
  have "perm ! i \<in> set perm" using assms(1,3) by simp
  then show ?thesis using assms(2) by simp
qed

lemma validate_permutation_accepts:
  "(validate_permutation maxd s = ([], Inr perm)) =
     (parse_permutation maxd s = Inr perm \<and> length perm = 9 \<and> set perm = {1..9})"
  by (auto simp add: validate_permutation_def check_permutation_def split: sum.splits)

lemma gifboxes_validate_permutation_accepts:
  "(gifboxes_validate_permutation maxd s = ([], Inr perm)) =
     (gifboxes_parse_permutation maxd s = Inr perm \<and> length perm = 9 \<and> set perm = {1..9})"
  by (auto simp add: gifboxes_validate_permutation_def check_permutation_def split: sum.splits)

text \<open>
  C4 (as amended). For every input string and either program: the validator returns the
  parsed sequence exactly when parsing yields 9 numbers whose set is \<open>{1, ..., 9}\<close>;
  it fails, printing the error and leaving with exit status 1, exactly when some piece
  of the string is not an integer literal (parsing yields no sequence at all), or parsing
  yields a count other than 9, or the resulting set is not \<open>{1, ..., 9}\<close>.
\<close>

theorem validate_permutation_outcome:
  "(validate_permutation maxd s = ([], Inr perm)) =
     (parse_permutation maxd s = Inr perm \<and> length perm = 9 \<and> set perm = {1..9}) \<and>
   (\<exists>e. validate_permutation maxd s = ([Print (ErrorParsingPermutation e)], Inl 1)) =
     ((\<exists>e. parse_permutation maxd s = Inl e) \<or>
      (\<exists>p. parse_permutation maxd s = Inr p \<and> (length p \<noteq> 9 \<or> set p \<noteq> {1..9}))) \<and>
   (gifboxes_validate_permutation maxd s = ([], Inr perm)) =
     (gifboxes_parse_permutation maxd s = Inr perm \<and> length perm = 9 \<and> set perm = {1..9}) \<and>
   (\<exists>e. gifboxes_validate_permutation maxd s = ([Print (ErrorParsingPermutation e)], Inl 1)) =
     ((\<exists>e. gifboxes_parse_permutation maxd s = Inl e) \<or>
      (\<exists>p. gifboxes_parse_permutation maxd s = Inr p \<and> (length p \<noteq> 9 \<or> set p \<noteq> {1..9})))"
proof (intro conjI)
  show "(validate_permutation maxd s = ([], Inr perm)) =
     (parse_permutation maxd s = Inr perm \<and> length perm = 9 \<and> set perm = {1..9})"
    by (rule validate_permutation_accepts)
  show "(\<exists>e. validate_permutation maxd s = ([Print (ErrorParsingPermutation e)], Inl 1)) =
     ((\<exists>e. parse_permutation maxd s = Inl e) \<or>
      (\<exists>p. parse_permutation maxd s = Inr p \<and> (length p \<noteq> 9 \<or> set p \<noteq> {1..9})))"
    by (cases "parse_permutation maxd s")
       (auto simp add: validate_permutation_def check_permutation_def split: sum.splits)
  show "(gifboxes_validate_permutation maxd s = ([], Inr perm)) =
     (gifboxes_parse_permutation maxd s = Inr perm \<and> length perm = 9 \<and> set perm = {1..9})"
    by (rule gifboxes_validate_permutation_accepts)
  show "(\<exists>e. gifboxes_validate_permutation maxd s = ([Print (ErrorParsingPermutation e)], Inl 1)) =
     ((\<exists>e. gifboxes_parse_permutation maxd s = Inl e) \<or>
      (\<exists>p. gifboxes_parse_permutation maxd s = Inr p \<and> (length p \<noteq> 9 \<or> set p \<noteq> {1..9})))"
    by (cases "gifboxes_parse_permutation maxd s")
       (auto simp add: gifboxes_validate_permutation_def check_permutation_def split: sum.splits)
qed

theorem validate_permutation_outcome_witness:
  "validate_permutation 4300 ''987654321'' = ([], Inr [9, 8, 7, 6, 5, 4, 3, 2, 1]) \<and>
   parse_permutation 4300 ''987654321'' = Inr [9, 8, 7, 6, 5, 4, 3, 2, 1] \<and>
   gifboxes_validate_permutation 4300 ''9,8,7,6,5,4,3,2,1'' = ([], Inr [9, 8, 7, 6, 5, 4, 3, 2, 1])"
proof -
  have p: "parse_permutation 4300 ''987654321'' = Inr [9, 8, 7, 6, 5, 4, 3, 2, 1]"
    by code_simp
  have g: "gifboxes_parse_permutation 4300 ''9,8,7,6,5,4,3,2,1'' = Inr [9, 8, 7, 6, 5, 4, 3, 2, 1]"
    by code_simp
  have s: "set [9, 8, 7, 6, 5, 4, 3, 2, 1] = {1..9::int}"
    by code_simp
  show ?thesis
    using validate_permutation_outcome [of 4300 "''987654321''" "[9, 8, 7, 6, 5, 4, 3, 2, 1]"]
      validate_permutation_outcome [of 4300 "''9,8,7,6,5,4,3,2,1''" "[9, 8, 7, 6, 5, 4, 3, 2, 1]"]
      p g s by simp
qed

text \<open>
  The claim as stated names only the count and the set as causes of failure. On
  \<^verbatim>\<open>"12345678x"\<close> (and on \<^verbatim>\<open>"1,2,3,4,5,6,7,8,x"\<close> in the other program) the validator
  fails although parsing yields no numbers, hence neither a count nor a set:
  \<^verbatim>\<open>int('x')\<close> raises the \<^verbatim>\<open>ValueError\<close> that the handler reports.
\<close>

theorem validate_unparsable_counterexample:
  "parse_permutation 4300 ''12345678x'' = Inl (ValueError ''invalid literal for int() with base 10'') \<and>
   validate_permutation 4300 ''12345678x'' =
     ([Print (ErrorParsingPermutation (ValueError ''invalid literal for int() with base 10''))], Inl 1) \<and>
   gifboxes_parse_permutation 4300 ''1,2,3,4,5,6,7,8,x'' =
     Inl (ValueError ''invalid literal for int() with base 10'') \<and>
   gifboxes_validate_permutation 4300 ''1,2,3,4,5,6,7,8,x'' =
     ([Print (ErrorParsingPermutation (ValueError ''invalid literal for int() with base 10''))], Inl 1)"
  by code_simp

section \<open>The frames in closed form\<close>

lemma py_index_in_range:
  assumes "0 \<le> i" "i < int (length xs)"
  shows "py_index xs i = Inr (xs ! nat i)"
  using assms by (simp add: py_index_def)

lemma grid_box_inside:
  assumes "0 \<le> w" "0 \<le> h" "c < 9" "get_grid_coordinates w h ! c = (x1, y1, x2, y2)"
  shows "0 \<le> x1 \<and> x1 \<le> x2 \<and> x2 \<le> w \<and> 0 \<le> y1 \<and> y1 \<le> y2 \<and> y2 \<le> h"
proof -
  have b: "0 \<le> w div 3" "3 * (w div 3) \<le> w" "0 \<le> h div 3" "3 * (h div 3) \<le> h"
    using assms(1,2) by auto
  have r: "c div 3 < 3" "c mod 3 < 3" using assms(3) by auto
  have "grid_cell w h (w div 3) (h div 3) (c div 3) (c mod 3) = (x1, y1, x2, y2)"
    using assms(3,4) by (simp add: get_grid_coordinates_nth)
  then show ?thesis
    using less_3_cases [OF r(1)] less_3_cases [OF r(2)] b
    by (auto simp add: grid_cell_def Let_def)
qed

lemma reveal_cells_eq:
  assumes "length perm = 9" "set perm = {1..9}" "\<forall>i\<in>set ns. i < 9"
  shows "reveal_cells img (get_grid_coordinates (int w) (int h)) perm ns (frame, pasted) =
           Inr (fold (\<lambda>i f. paste_box img f (get_grid_coordinates (int w) (int h) ! nat (perm ! i - 1)))
                  ns frame,
                pasted @ map (\<lambda>i. perm ! i - 1) ns)"
  using assms(3)
proof (induction ns arbitrary: frame pasted)
  case Nil
  then show ?case by simp
next
  case (Cons i ns)
  have i: "i < 9" using Cons.prems by simp
  have p: "1 \<le> perm ! i \<and> perm ! i \<le> 9"
    by (rule valid_permutation_nth [OF assms(1,2) i])
  have ip: "py_index perm (int i) = Inr (perm ! i)"
    using i assms(1) by (simp add: py_index_in_range)
  have c: "nat (perm ! i - 1) < 9" using p by auto
  have ig: "py_index (get_grid_coordinates (int w) (int h)) (perm ! i - 1) =
              Inr (get_grid_coordinates (int w) (int h) ! nat (perm ! i - 1))"
    using p by (simp add: py_index_in_range length_get_grid_coordinates)
  obtain x1 y1 x2 y2 where
    box: "get_grid_coordinates (int w) (int h) ! nat (perm ! i - 1) = (x1, y1, x2, y2)"
    by (cases "get_grid_coordinates (int w) (int h) ! nat (perm ! i - 1)") auto
  have inside: "0 \<le> x1 \<and> x1 \<le> x2 \<and> x2 \<le> int w \<and> 0 \<le> y1 \<and> y1 \<le> y2 \<and> y2 \<le> int h"
    by (rule grid_box_inside [OF _ _ c box]) simp_all
  have rest: "\<forall>i\<in>set ns. i < 9" using Cons.prems by simp
  show ?case
    using inside
    by (simp add: ip ig box Cons.IH [OF rest] paste_box_def)
qed

lemma build_frames_eq:
  assumes "length perm = 9" "set perm = {1..9}" "\<forall>k\<in>set ks. k \<le> 9"
  shows "build_frames img (get_grid_coordinates (int (size_w img)) (int (size_h img))) perm ks acc =
           Inr (acc @ map (frame_at img perm) ks)"
  using assms(3)
proof (induction ks arbitrary: acc)
  case Nil
  then show ?case by simp
next
  case (Cons k ks)
  have "\<forall>i\<in>set [0..<k]. i < 9" using Cons.prems by auto
  from reveal_cells_eq [OF assms(1,2) this]
  show ?case using Cons by (simp add: frame_at_def)
qed

lemma unveil_frames_eq:
  assumes "length perm = 9" "set perm = {1..9}"
  shows "unveil_frames img perm = Inr (map (frame_at img perm) [0..<10])"
proof -
  have "\<forall>k\<in>set [1..<10]. k \<le> 9" by auto
  from build_frames_eq [OF assms this]
  have "unveil_frames img perm = Inr (frame_at img perm 0 # map (frame_at img perm) [1..<10])"
    by (simp add: unveil_frames_def Let_def frame_at_def)
  moreover have "[0..<10] = 0 # [1..<10]" by (simp add: upt_rec)
  ultimately show ?thesis by simp
qed
lemma valid_image_Image_new: "valid_image (Image_new w h c)"
  by (simp add: valid_image_def Image_new_def list_all_iff)

lemma valid_image_Image_paste: "valid_image (Image_paste frame region p)"
  by (cases p) (simp add: valid_image_def list_all_iff)

lemma size_Image_paste:
  "size_w (Image_paste frame region p) = size_w frame"
  "size_h (Image_paste frame region p) = size_h frame"
  by (cases p, simp)+

lemma getpixel_Image_new:
  assumes "x < w" "y < h"
  shows "getpixel (Image_new w h c) x y = c"
  using assms by (simp add: getpixel_def Image_new_def)

lemma getpixel_Image_paste:
  assumes "x < size_w frame" "y < size_h frame"
  shows "getpixel (Image_paste frame region (x0, y0)) x y =
           (if x0 \<le> int x \<and> int x < x0 + int (size_w region) \<and>
               y0 \<le> int y \<and> int y < y0 + int (size_h region)
            then getpixel region (nat (int x - x0)) (nat (int y - y0))
            else getpixel frame x y)"
  using assms by (simp add: getpixel_def)

lemma paste_box_size:
  "size_w (paste_box img frame box) = size_w frame"
  "size_h (paste_box img frame box) = size_h frame"
  by (auto simp add: paste_box_def size_Image_paste split: sum.splits)

lemma paste_box_pixel:
  assumes "0 \<le> x1" "x1 \<le> x2" "x2 \<le> int (size_w img)"
    and "0 \<le> y1" "y1 \<le> y2" "y2 \<le> int (size_h img)"
    and "size_w frame = size_w img" "size_h frame = size_h img"
    and "x < size_w img" "y < size_h img"
  shows "getpixel (paste_box img frame (x1, y1, x2, y2)) x y =
           (if in_rect (x1, y1, x2, y2) (int x, int y) then getpixel img x y
            else getpixel frame x y)"
proof -
  define region where
    "region = \<lparr>size_w = nat (x2 - x1), size_h = nat (y2 - y1),
                rows = map (\<lambda>j. map (\<lambda>i. crop_pixel img (x1 + int i) (y1 + int j))
                                   [0..<nat (x2 - x1)])
                           [0..<nat (y2 - y1)]\<rparr>"
  have crop: "Image_crop img (x1, y1, x2, y2) = Inr region"
    using assms(2,5) by (simp add: region_def)
  have pb: "paste_box img frame (x1, y1, x2, y2) = Image_paste frame region (x1, y1)"
    by (simp only: paste_box_def crop sum.case fst_conv snd_conv)
  have sz: "int (size_w region) = x2 - x1" "int (size_h region) = y2 - y1"
    using assms(2,5) by (simp_all add: region_def)
  have xy: "x < size_w frame" "y < size_h frame"
    using assms by simp_all
  have gp: "getpixel (paste_box img frame (x1, y1, x2, y2)) x y =
              (if in_rect (x1, y1, x2, y2) (int x, int y)
               then getpixel region (nat (int x - x1)) (nat (int y - y1))
               else getpixel frame x y)"
    unfolding pb getpixel_Image_paste [OF xy] sz by simp
  show ?thesis
  proof (cases "in_rect (x1, y1, x2, y2) (int x, int y)")
    case True
    then have r: "x1 \<le> int x" "int x < x2" "y1 \<le> int y" "int y < y2" by simp_all
    have i: "nat (int x - x1) < nat (x2 - x1)" "nat (int y - y1) < nat (y2 - y1)"
      using r by auto
    have "getpixel region (nat (int x - x1)) (nat (int y - y1)) =
            crop_pixel img (x1 + int (nat (int x - x1))) (y1 + int (nat (int y - y1)))"
      using i by (simp add: region_def getpixel_def)
    also have "\<dots> = getpixel img x y"
      using r assms by (simp add: crop_pixel_def)
    finally have e: "getpixel region (nat (int x - x1)) (nat (int y - y1)) = getpixel img x y" .
    show ?thesis by (simp only: gp True if_True e)
  next
    case False
    show ?thesis by (simp only: gp False if_False)
  qed
qed

lemma fold_paste_box_size:
  "size_w (fold (\<lambda>i f. paste_box img f (B i)) ns frame) = size_w frame \<and>
   size_h (fold (\<lambda>i f. paste_box img f (B i)) ns frame) = size_h frame"
  by (induction ns arbitrary: frame) (simp_all add: paste_box_size)

lemma fold_paste_box_pixel:
  assumes "\<forall>i\<in>set ns. \<forall>x1 y1 x2 y2. B i = (x1, y1, x2, y2) \<longrightarrow>
             0 \<le> x1 \<and> x1 \<le> x2 \<and> x2 \<le> int (size_w img) \<and>
             0 \<le> y1 \<and> y1 \<le> y2 \<and> y2 \<le> int (size_h img)"
    and "size_w frame = size_w img" "size_h frame = size_h img"
    and "x < size_w img" "y < size_h img"
  shows "getpixel (fold (\<lambda>i f. paste_box img f (B i)) ns frame) x y =
           (if \<exists>i\<in>set ns. in_rect (B i) (int x, int y) then getpixel img x y
            else getpixel frame x y)"
  using assms(1,2,3)
proof (induction ns arbitrary: frame)
  case Nil
  then show ?case by simp
next
  case (Cons i ns)
  obtain x1 y1 x2 y2 where b: "B i = (x1, y1, x2, y2)" by (cases "B i") auto
  have inside: "0 \<le> x1 \<and> x1 \<le> x2 \<and> x2 \<le> int (size_w img) \<and>
                0 \<le> y1 \<and> y1 \<le> y2 \<and> y2 \<le> int (size_h img)"
    using Cons.prems(1) b by simp
  have px: "getpixel (paste_box img frame (B i)) x y =
              (if in_rect (B i) (int x, int y) then getpixel img x y else getpixel frame x y)"
    unfolding b using inside Cons.prems(2,3) assms(4,5) by (intro paste_box_pixel) simp_all
  have rest: "\<forall>i\<in>set ns. \<forall>x1 y1 x2 y2. B i = (x1, y1, x2, y2) \<longrightarrow>
             0 \<le> x1 \<and> x1 \<le> x2 \<and> x2 \<le> int (size_w img) \<and>
             0 \<le> y1 \<and> y1 \<le> y2 \<and> y2 \<le> int (size_h img)"
    using Cons.prems(1) by simp
  have "getpixel (fold (\<lambda>i f. paste_box img f (B i)) ns (paste_box img frame (B i))) x y =
          (if \<exists>i\<in>set ns. in_rect (B i) (int x, int y) then getpixel img x y
           else getpixel (paste_box img frame (B i)) x y)"
    using Cons.prems(2,3) by (intro Cons.IH [OF rest]) (simp_all add: paste_box_size)
  then show ?case by (simp add: px)
qed
lemma is_permutation_iff: "is_permutation perm = (length perm = 9 \<and> set perm = {1..9})"
proof
  assume p: "is_permutation perm"
  then have "card (set perm) = 9" "set perm \<subseteq> {1..9}"
    by (simp_all add: is_permutation_def distinct_card)
  then have "set perm = {1..9}"
    by (intro card_subset_eq) simp_all
  with p show "length perm = 9 \<and> set perm = {1..9}" by (simp add: is_permutation_def)
next
  assume "length perm = 9 \<and> set perm = {1..9}"
  then show "is_permutation perm"
    by (simp add: is_permutation_def valid_permutation_distinct)
qed

lemma is_permutation_check: "is_permutation perm = (check_permutation perm = Inr perm)"
  by (auto simp add: is_permutation_iff check_permutation_def)

lemma valid_image_paste_box: "valid_image frame \<Longrightarrow> valid_image (paste_box img frame box)"
  by (cases "Image_crop img box")
     (simp_all only: paste_box_def sum.case valid_image_Image_paste)

lemma valid_image_fold_paste_box:
  "valid_image frame \<Longrightarrow> valid_image (fold (\<lambda>i f. paste_box img f (B i)) ns frame)"
  by (induction ns arbitrary: frame) (simp_all add: valid_image_paste_box)

lemma frame_at_valid: "valid_image (fst (frame_at img perm k))"
  by (simp add: frame_at_def valid_image_fold_paste_box create_gray_frame_def valid_image_Image_new)

lemma frame_at_size:
  "size_w (fst (frame_at img perm k)) = size_w img"
  "size_h (fst (frame_at img perm k)) = size_h img"
  by (simp_all add: frame_at_def fold_paste_box_size create_gray_frame_def Image_new_def)

lemma frame_at_0: "frame_at img perm 0 = (create_gray_frame (size_w img) (size_h img), [])"
  by (simp add: frame_at_def)

lemma frame_at_pasted: "snd (frame_at img perm k) = map (\<lambda>i. perm ! i - 1) [0..<k]"
  by (simp add: frame_at_def)

lemma frame_at_pixel:
  assumes "length perm = 9" "set perm = {1..9}" "k \<le> 9"
    and "x < size_w img" "y < size_h img"
  shows "getpixel (fst (frame_at img perm k)) x y =
           (if \<exists>i<k. in_rect (get_grid_coordinates (int (size_w img)) (int (size_h img)) !
                                nat (perm ! i - 1)) (int x, int y)
            then getpixel img x y else (128, 128, 128))"
proof -
  let ?G = "get_grid_coordinates (int (size_w img)) (int (size_h img))"
  let ?B = "\<lambda>i. ?G ! nat (perm ! i - 1)"
  let ?gray = "create_gray_frame (size_w img) (size_h img)"
  have inside: "\<forall>i\<in>set [0..<k]. \<forall>x1 y1 x2 y2. ?B i = (x1, y1, x2, y2) \<longrightarrow>
             0 \<le> x1 \<and> x1 \<le> x2 \<and> x2 \<le> int (size_w img) \<and>
             0 \<le> y1 \<and> y1 \<le> y2 \<and> y2 \<le> int (size_h img)"
  proof (intro ballI allI impI)
    fix i x1 y1 x2 y2
    assume i: "i \<in> set [0..<k]" and b: "?B i = (x1, y1, x2, y2)"
    have "i < 9" using i assms(3) by simp
    then have "1 \<le> perm ! i \<and> perm ! i \<le> 9"
      by (rule valid_permutation_nth [OF assms(1,2)])
    then have c: "nat (perm ! i - 1) < 9" by auto
    show "0 \<le> x1 \<and> x1 \<le> x2 \<and> x2 \<le> int (size_w img) \<and>
          0 \<le> y1 \<and> y1 \<le> y2 \<and> y2 \<le> int (size_h img)"
      by (rule grid_box_inside [OF _ _ c b]) simp_all
  qed
  have sz: "size_w ?gray = size_w img" "size_h ?gray = size_h img"
    by (simp_all add: create_gray_frame_def Image_new_def)
  have f1: "getpixel (fold (\<lambda>i f. paste_box img f (?B i)) [0..<k] ?gray) x y =
          (if \<exists>i\<in>set [0..<k]. in_rect (?B i) (int x, int y) then getpixel img x y
           else getpixel ?gray x y)"
    by (rule fold_paste_box_pixel [OF inside sz assms(4,5)])
  have f2: "getpixel ?gray x y = (128, 128, 128)"
    using assms(4,5) by (simp add: create_gray_frame_def getpixel_Image_new)
  have f3: "(\<exists>i\<in>set [0..<k]. in_rect (?B i) (int x, int y)) =
            (\<exists>i<k. in_rect (?B i) (int x, int y))"
    by auto
  show ?thesis by (simp only: frame_at_def fst_conv f1 f2 f3)
qed

lemma all_cells_revealed:
  assumes "length perm = 9" "set perm = {1..9}" "x < size_w img" "y < size_h img"
  shows "\<exists>i<9. in_rect (get_grid_coordinates (int (size_w img)) (int (size_h img)) !
                         nat (perm ! i - 1)) (int x, int y)"
proof -
  let ?G = "get_grid_coordinates (int (size_w img)) (int (size_h img))"
  have "in_bounds (int (size_w img)) (int (size_h img)) (int x, int y)"
    using assms(3,4) by simp
  then have "\<exists>c<9. in_rect (?G ! c) (int x, int y)"
    by (simp only: grid_cover [of "int (size_w img)" "int (size_h img)", symmetric, simplified])
  then obtain c where c: "c < 9" "in_rect (?G ! c) (int x, int y)" by blast
  have "int c + 1 \<in> set perm" using c(1) assms(2) by simp
  then obtain i where i: "i < length perm" "perm ! i = int c + 1"
    by (auto simp add: in_set_conv_nth)
  have "nat (perm ! i - 1) = c" using i(2) by simp
  with c(2) i(1) assms(1) show ?thesis by auto
qed

lemma pil_image_eqI:
  fixes a b :: pil_image
  assumes "size_w a = size_w b" "size_h a = size_h b" "rows a = rows b"
  shows "a = b"
  using assms by (cases a, cases b) simp

lemma frame_at_9:
  assumes "valid_image img" "length perm = 9" "set perm = {1..9}"
  shows "fst (frame_at img perm 9) = img"
proof (rule pil_image_eqI)
  let ?f = "fst (frame_at img perm 9)"
  show "size_w ?f = size_w img" "size_h ?f = size_h img"
    by (rule frame_at_size)+
  have vf: "valid_image ?f" by (rule frame_at_valid)
  show "rows ?f = rows img"
  proof (rule nth_equalityI)
    show len: "length (rows ?f) = length (rows img)"
      using vf assms(1) by (simp add: valid_image_def frame_at_size)
    fix y
    assume "y < length (rows ?f)"
    then have y: "y < size_h img" using vf by (simp add: valid_image_def frame_at_size)
    have l1: "length (rows ?f ! y) = size_w img"
      using vf y by (simp add: valid_image_def frame_at_size list_all_length)
    have l2: "length (rows img ! y) = size_w img"
      using assms(1) y by (simp add: valid_image_def list_all_length)
    show "rows ?f ! y = rows img ! y"
    proof (rule nth_equalityI)
      show "length (rows ?f ! y) = length (rows img ! y)" using l1 l2 by simp
      fix x
      assume "x < length (rows ?f ! y)"
      then have x: "x < size_w img" using l1 by simp
      have "getpixel ?f x y = getpixel img x y"
        using frame_at_pixel [OF assms(2,3) order_refl x y]
          all_cells_revealed [OF assms(2,3) x y] by simp
      then show "rows ?f ! y ! x = rows img ! y ! x"
        by (simp add: getpixel_def)
    qed
  qed
qed
lemma gifboxes_reveal_cells_eq:
  "gifboxes_reveal_cells img grid perm ns st = reveal_cells img grid perm ns st"
proof (induction ns arbitrary: st)
  case Nil
  then show ?case by simp
next
  case (Cons i ns)
  obtain frame pasted where st: "st = (frame, pasted)" by (cases st)
  show ?case
    by (simp add: st Cons.IH Let_def split: sum.splits prod.splits del: Image_crop.simps Image_paste.simps)
qed

lemma gifboxes_build_frames_eq:
  "gifboxes_build_frames img grid perm ks acc = build_frames img grid perm ks acc"
  by (induction ks arbitrary: acc)
     (simp_all add: gifboxes_reveal_cells_eq gifboxes_create_gray_frame_def create_gray_frame_def
        split: sum.splits)

lemma gifboxes_unveil_frames_eq: "gifboxes_unveil_frames img perm = unveil_frames img perm"
  by (simp add: gifboxes_unveil_frames_def unveil_frames_def gifboxes_build_frames_eq
      gifboxes_get_grid_coordinates_eq gifboxes_create_gray_frame_def create_gray_frame_def)

lemma sample_image_valid: "valid_image sample_image"
  by (simp add: valid_image_def sample_image_def)

lemma is_permutation_reverse: "is_permutation [9, 8, 7, 6, 5, 4, 3, 2, 1]"
  by (simp add: is_permutation_def)

section \<open>Claims about the frame renderer\<close>

text \<open>
  C2. For every source image (with as many rows as its height and as many pixels in
  each row as its width) and every valid permutation, the renderer produces 10 frames
  of the size of the image. In frame \<open>k\<close> a pixel equals the source pixel at the same
  position if it lies in one of the cells \<open>permutation[0 .. k-1]\<close> (minus 1, as indices
  into the grid), and equals (128, 128, 128) otherwise. Frame 0 is the gray image, and
  frame 9 is the source image.
\<close>

theorem unveil_frames_pixels:
  assumes "valid_image img" "is_permutation perm"
  shows "\<exists>frames. unveil_frames img perm = Inr frames \<and> length frames = 10 \<and>
           (\<forall>k<10. size_w (fst (frames ! k)) = size_w img \<and>
                    size_h (fst (frames ! k)) = size_h img \<and>
                    valid_image (fst (frames ! k)) \<and>
                    (\<forall>x < size_w img. \<forall>y < size_h img.
                       getpixel (fst (frames ! k)) x y =
                         (if \<exists>i<k. in_rect
                                     (get_grid_coordinates (int (size_w img)) (int (size_h img)) !
                                        nat (perm ! i - 1))
                                     (int x, int y)
                          then getpixel img x y else (128, 128, 128)))) \<and>
           fst (frames ! 0) = Image_new (size_w img) (size_h img) (128, 128, 128) \<and>
           fst (frames ! 9) = img"
proof -
  have p: "length perm = 9" "set perm = {1..9}"
    using assms(2) by (simp_all add: is_permutation_iff)
  let ?frames = "map (frame_at img perm) [0..<10]"
  have nth: "?frames ! k = frame_at img perm k" if "k < 10" for k
    using that by simp
  have "unveil_frames img perm = Inr ?frames"
    by (rule unveil_frames_eq [OF p])
  moreover have "length ?frames = 10" by simp
  moreover have "size_w (fst (?frames ! k)) = size_w img \<and>
                 size_h (fst (?frames ! k)) = size_h img \<and>
                 valid_image (fst (?frames ! k)) \<and>
                 (\<forall>x < size_w img. \<forall>y < size_h img.
                    getpixel (fst (?frames ! k)) x y =
                      (if \<exists>i<k. in_rect
                                  (get_grid_coordinates (int (size_w img)) (int (size_h img)) !
                                     nat (perm ! i - 1))
                                  (int x, int y)
                       then getpixel img x y else (128, 128, 128)))" if k: "k < 10" for k
  proof -
    have k9: "k \<le> 9" using k by simp
    show ?thesis
      unfolding nth [OF k]
      using frame_at_pixel [OF p k9, of _ img]
      by (simp add: frame_at_size frame_at_valid)
  qed
  moreover have "fst (?frames ! 0) = Image_new (size_w img) (size_h img) (128, 128, 128)"
    by (simp add: nth frame_at_0 create_gray_frame_def)
  moreover have "fst (?frames ! 9) = img"
    by (simp add: nth frame_at_9 [OF assms(1) p])
  ultimately show ?thesis by blast
qed

theorem unveil_frames_pixels_witness:
  "valid_image sample_image \<and> is_permutation [9, 8, 7, 6, 5, 4, 3, 2, 1] \<and>
   (\<exists>frames. unveil_frames sample_image [9, 8, 7, 6, 5, 4, 3, 2, 1] = Inr frames \<and>
      length frames = 10 \<and>
      getpixel (fst (frames ! 1)) 2 2 = (9, 0, 0) \<and>
      getpixel (fst (frames ! 1)) 1 2 = (128, 128, 128) \<and>
      fst (frames ! 0) = Image_new 3 3 (128, 128, 128) \<and>
      fst (frames ! 9) = sample_image)"
proof -
  let ?perm = "[9, 8, 7, 6, 5, 4, 3, 2, 1] :: int list"
  from unveil_frames_pixels [OF sample_image_valid is_permutation_reverse]
  obtain frames where f: "unveil_frames sample_image ?perm = Inr frames" "length frames = 10"
    and px: "\<forall>k<10. size_w (fst (frames ! k)) = size_w sample_image \<and>
                    size_h (fst (frames ! k)) = size_h sample_image \<and>
                    valid_image (fst (frames ! k)) \<and>
                    (\<forall>x < size_w sample_image. \<forall>y < size_h sample_image.
                       getpixel (fst (frames ! k)) x y =
                         (if \<exists>i<k. in_rect
                                     (get_grid_coordinates (int (size_w sample_image))
                                        (int (size_h sample_image)) ! nat (?perm ! i - 1))
                                     (int x, int y)
                          then getpixel sample_image x y else (128, 128, 128)))"
    and f0: "fst (frames ! 0) = Image_new (size_w sample_image) (size_h sample_image) (128, 128, 128)"
    and f9: "fst (frames ! 9) = sample_image"
    by blast
  have sz: "size_w sample_image = 3" "size_h sample_image = 3"
    by (simp_all add: sample_image_def)
  have g8: "get_grid_coordinates 3 3 ! 8 = (2, 2, 3, 3)"
    by (simp add: get_grid_coordinates_unfold)
  have one: "(\<exists>i<1. P i) = P (0::nat)" for P by auto
  have a: "getpixel (fst (frames ! 1)) 2 2 = (9, 0, 0)"
    using px [rule_format, of 1, THEN conjunct2, THEN conjunct2, THEN conjunct2,
        rule_format, of 2 2]
    by (simp add: sz one g8) (simp add: sample_image_def getpixel_def)
  have b: "getpixel (fst (frames ! 1)) 1 2 = (128, 128, 128)"
    using px [rule_format, of 1, THEN conjunct2, THEN conjunct2, THEN conjunct2,
        rule_format, of 1 2]
    by (simp add: sz one g8)
  show ?thesis
    using sample_image_valid is_permutation_reverse f a b f0 f9 by (simp add: sz)
qed

lemma coloured_in_iff:
  "coloured_in img box =
     (\<exists>x y. x < size_w img \<and> y < size_h img \<and> in_rect box (int x, int y) \<and>
            getpixel img x y \<noteq> (128, 128, 128))"
  unfolding coloured_in_def list_ex_iff by (simp add: Bex_def) blast

lemma cell_revealed_iff:
  assumes "length perm = 9" "set perm = {1..9}" "k \<le> 9" "c < 9"
    and "in_rect (get_grid_coordinates (int w) (int h) ! c) p"
  shows "(\<exists>i<k. in_rect (get_grid_coordinates (int w) (int h) ! nat (perm ! i - 1)) p) =
         (int c \<in> set (map (\<lambda>i. perm ! i - 1) [0..<k]))"
proof
  let ?G = "get_grid_coordinates (int w) (int h)"
  assume "\<exists>i<k. in_rect (?G ! nat (perm ! i - 1)) p"
  then obtain i where i: "i < k" "in_rect (?G ! nat (perm ! i - 1)) p" by blast
  have r: "1 \<le> perm ! i \<and> perm ! i \<le> 9"
    using valid_permutation_nth [OF assms(1,2), of i] i(1) assms(3) by simp
  then have lt: "nat (perm ! i - 1) < 9" by linarith
  have "nat (perm ! i - 1) = c"
  proof (rule ccontr)
    assume "nat (perm ! i - 1) \<noteq> c"
    from grid_disjoint [OF _ _ lt assms(4) this, of "int w" "int h" p] i(2) assms(5)
    show False by simp
  qed
  then have "int c = perm ! i - 1" using r by arith
  then show "int c \<in> set (map (\<lambda>i. perm ! i - 1) [0..<k])"
    using i(1) by auto
next
  let ?G = "get_grid_coordinates (int w) (int h)"
  assume "int c \<in> set (map (\<lambda>i. perm ! i - 1) [0..<k])"
  then obtain i where i: "i < k" "int c = perm ! i - 1" by auto
  then have "nat (perm ! i - 1) = c" by simp
  then show "\<exists>i<k. in_rect (?G ! nat (perm ! i - 1)) p"
    using i(1) assms(5) by auto
qed

lemma frame_at_cell_pixel:
  assumes "length perm = 9" "set perm = {1..9}" "k \<le> 9" "c < 9"
    and "x < size_w img" "y < size_h img"
    and "in_rect (get_grid_coordinates (int (size_w img)) (int (size_h img)) ! c) (int x, int y)"
  shows "getpixel (fst (frame_at img perm k)) x y =
           (if int c \<in> set (map (\<lambda>i. perm ! i - 1) [0..<k])
            then getpixel img x y else (128, 128, 128))"
  unfolding frame_at_pixel [OF assms(1,2,3,5,6)]
    cell_revealed_iff [OF assms(1,2,3,4,7)] ..

lemma frame_at_next_pixel:
  assumes "length perm = 9" "set perm = {1..9}" "k < 9"
    and "x < size_w img" "y < size_h img"
  shows "getpixel (fst (frame_at img perm (Suc k))) x y =
           (if in_rect (get_grid_coordinates (int (size_w img)) (int (size_h img)) !
                          nat (perm ! k - 1)) (int x, int y)
            then getpixel img x y else getpixel (fst (frame_at img perm k)) x y)"
proof -
  have k: "Suc k \<le> 9" "k \<le> 9" using assms(3) by simp_all
  show ?thesis
    unfolding frame_at_pixel [OF assms(1,2) k(1) assms(4,5)]
      frame_at_pixel [OF assms(1,2) k(2) assms(4,5)]
    by (auto simp add: less_Suc_eq)
qed

lemma frame_at_coloured:
  assumes "length perm = 9" "set perm = {1..9}" "k \<le> 9" "c < 9"
    and "coloured_in img (get_grid_coordinates (int (size_w img)) (int (size_h img)) ! c)"
  shows "coloured_in (fst (frame_at img perm k))
           (get_grid_coordinates (int (size_w img)) (int (size_h img)) ! c) =
         (int c \<in> set (map (\<lambda>i. perm ! i - 1) [0..<k]))"
proof
  let ?B = "get_grid_coordinates (int (size_w img)) (int (size_h img)) ! c"
  assume "coloured_in (fst (frame_at img perm k)) ?B"
  then obtain x y where xy: "x < size_w img" "y < size_h img" "in_rect ?B (int x, int y)"
    "getpixel (fst (frame_at img perm k)) x y \<noteq> (128, 128, 128)"
    unfolding coloured_in_iff frame_at_size by blast
  from xy(4) show "int c \<in> set (map (\<lambda>i. perm ! i - 1) [0..<k])"
    unfolding frame_at_cell_pixel [OF assms(1,2,3,4) xy(1,2,3)]
    by (simp split: if_splits)
next
  let ?B = "get_grid_coordinates (int (size_w img)) (int (size_h img)) ! c"
  assume r: "int c \<in> set (map (\<lambda>i. perm ! i - 1) [0..<k])"
  from assms(5) obtain x y where xy: "x < size_w img" "y < size_h img"
    "in_rect ?B (int x, int y)" "getpixel img x y \<noteq> (128, 128, 128)"
    unfolding coloured_in_iff by blast
  have "getpixel (fst (frame_at img perm k)) x y = getpixel img x y"
    unfolding frame_at_cell_pixel [OF assms(1,2,3,4) xy(1,2,3)] using r by simp
  then show "coloured_in (fst (frame_at img perm k)) ?B"
    unfolding coloured_in_iff frame_at_size using xy
    by (intro exI [of _ x] exI [of _ y]) simp
qed

text \<open>
  C3. For every valid permutation, in the frames the renderer returns: the cells revealed
  in frame \<open>k\<close> are the cells \<open>permutation[0 .. k-1]\<close> minus 1, which is to say that every
  pixel of the frame inside such a cell is the source pixel and every pixel inside
  another cell is gray (128, 128, 128); the renderer's list of the cells it pasted into
  the frame names these cells. For every \<open>k\<close> from 0 to 8 the set of revealed cells of
  frame \<open>k\<close> is a strict subset of that of frame \<open>k + 1\<close>, which has exactly one cell more,
  \<open>permutation[k] - 1\<close>, and the picture of frame \<open>k + 1\<close> is that of frame \<open>k\<close> with the
  pixels of this one cell replaced by the source pixels. For a cell of the source image
  with a pixel that is not gray, the frame shows a pixel that is not gray in that cell
  if and only if the cell is among the revealed ones.
\<close>

theorem reveal_monotone:
  assumes "is_permutation perm"
  shows "\<exists>frames. unveil_frames img perm = Inr frames \<and>
           (\<forall>k<10. snd (frames ! k) = map (\<lambda>i. perm ! i - 1) [0..<k]) \<and>
           (\<forall>k<10. \<forall>c<9. \<forall>x y.
               x < size_w img \<and> y < size_h img \<and>
               in_rect (get_grid_coordinates (int (size_w img)) (int (size_h img)) ! c)
                 (int x, int y) \<longrightarrow>
               getpixel (fst (frames ! k)) x y =
                 (if int c \<in> set (snd (frames ! k)) then getpixel img x y
                  else (128, 128, 128))) \<and>
           (\<forall>k<9. set (snd (frames ! k)) \<subset> set (snd (frames ! (k + 1))) \<and>
                   perm ! k - 1 \<notin> set (snd (frames ! k)) \<and>
                   set (snd (frames ! (k + 1))) = insert (perm ! k - 1) (set (snd (frames ! k)))) \<and>
           (\<forall>k<9. \<forall>x y.
               x < size_w img \<and> y < size_h img \<longrightarrow>
               getpixel (fst (frames ! (k + 1))) x y =
                 (if in_rect (get_grid_coordinates (int (size_w img)) (int (size_h img)) !
                                nat (perm ! k - 1)) (int x, int y)
                  then getpixel img x y else getpixel (fst (frames ! k)) x y)) \<and>
           (\<forall>k<10. \<forall>c<9.
               coloured_in img (get_grid_coordinates (int (size_w img)) (int (size_h img)) ! c) \<longrightarrow>
               coloured_in (fst (frames ! k))
                 (get_grid_coordinates (int (size_w img)) (int (size_h img)) ! c) =
               (int c \<in> set (snd (frames ! k))))"
proof -
  have p: "length perm = 9" "set perm = {1..9}"
    using assms by (simp_all add: is_permutation_iff)
  have d: "distinct perm" using assms by (simp add: is_permutation_def)
  let ?G = "get_grid_coordinates (int (size_w img)) (int (size_h img))"
  let ?frames = "map (frame_at img perm) [0..<10]"
  have at: "?frames ! k = frame_at img perm k" if "k < 10" for k
    using that by simp
  have nth: "snd (?frames ! k) = map (\<lambda>i. perm ! i - 1) [0..<k]" if "k < 10" for k
    using that by (simp add: frame_at_pasted)
  have cells: "getpixel (fst (?frames ! k)) x y =
                 (if int c \<in> set (snd (?frames ! k)) then getpixel img x y
                  else (128, 128, 128))"
    if "k < 10" "c < 9" "x < size_w img \<and> y < size_h img \<and> in_rect (?G ! c) (int x, int y)"
    for k c x y
  proof -
    have k: "k \<le> 9" using that(1) by simp
    show ?thesis
      unfolding at [OF that(1)] frame_at_pasted
      using frame_at_cell_pixel [OF p k that(2), where x = x and y = y and img = img] that(3)
      by simp
  qed
  have step: "set (snd (?frames ! k)) \<subset> set (snd (?frames ! (k + 1))) \<and>
              perm ! k - 1 \<notin> set (snd (?frames ! k)) \<and>
              set (snd (?frames ! (k + 1))) = insert (perm ! k - 1) (set (snd (?frames ! k)))"
    if k: "k < 9" for k
  proof -
    have new: "perm ! k - 1 \<notin> set (map (\<lambda>i. perm ! i - 1) [0..<k])"
    proof
      assume "perm ! k - 1 \<in> set (map (\<lambda>i. perm ! i - 1) [0..<k])"
      then obtain i where i: "i < k" "perm ! i = perm ! k" by auto
      then show False using d k p(1) by (simp add: nth_eq_iff_index_eq)
    qed
    have grow: "map (\<lambda>i. perm ! i - 1) [0..<k + 1] = map (\<lambda>i. perm ! i - 1) [0..<k] @ [perm ! k - 1]"
      by simp
    have k1: "k < 10" "k + 1 < 10" using k by simp_all
    show ?thesis
      unfolding nth [OF k1(1)] nth [OF k1(2)] grow using new by auto
  qed
  have pic: "getpixel (fst (?frames ! (k + 1))) x y =
               (if in_rect (?G ! nat (perm ! k - 1)) (int x, int y)
                then getpixel img x y else getpixel (fst (?frames ! k)) x y)"
    if "k < 9" "x < size_w img \<and> y < size_h img" for k x y
  proof -
    have k1: "k < 10" "k + 1 < 10" using that(1) by simp_all
    show ?thesis
      unfolding at [OF k1(1)] at [OF k1(2)]
      using frame_at_next_pixel [OF p that(1), where x = x and y = y and img = img] that(2)
      by simp
  qed
  have seen: "coloured_in (fst (?frames ! k)) (?G ! c) = (int c \<in> set (snd (?frames ! k)))"
    if "k < 10" "c < 9" "coloured_in img (?G ! c)" for k c
  proof -
    have k: "k \<le> 9" using that(1) by simp
    show ?thesis
      unfolding at [OF that(1)] frame_at_pasted
      by (rule frame_at_coloured [OF p k that(2,3)])
  qed
  have "unveil_frames img perm = Inr ?frames"
    by (rule unveil_frames_eq [OF p])
  with nth cells step pic seen show ?thesis by blast
qed

theorem reveal_monotone_witness:
  "is_permutation [9, 8, 7, 6, 5, 4, 3, 2, 1] \<and>
   (\<exists>frames. unveil_frames sample_image [9, 8, 7, 6, 5, 4, 3, 2, 1] = Inr frames \<and>
      snd (frames ! 2) = [8, 7] \<and> snd (frames ! 3) = [8, 7, 6] \<and>
      set (snd (frames ! 2)) \<subset> set (snd (frames ! 3)) \<and>
      getpixel (fst (frames ! 2)) 0 2 = (128, 128, 128) \<and>
      getpixel (fst (frames ! 3)) 0 2 = getpixel sample_image 0 2 \<and>
      getpixel (fst (frames ! 3)) 1 1 = getpixel (fst (frames ! 2)) 1 1 \<and>
      \<not> coloured_in (fst (frames ! 2)) (get_grid_coordinates 3 3 ! 6) \<and>
      coloured_in (fst (frames ! 3)) (get_grid_coordinates 3 3 ! 6))"
proof -
  let ?perm = "[9, 8, 7, 6, 5, 4, 3, 2, 1] :: int list"
  let ?G = "get_grid_coordinates (int (size_w sample_image)) (int (size_h sample_image))"
  from reveal_monotone [OF is_permutation_reverse, of sample_image]
  obtain frames where f: "unveil_frames sample_image ?perm = Inr frames"
    and l: "\<forall>k<10. snd (frames ! k) = map (\<lambda>i. ?perm ! i - 1) [0..<k]"
    and cells: "\<forall>k<10. \<forall>c<9. \<forall>x y.
               x < size_w sample_image \<and> y < size_h sample_image \<and>
               in_rect (?G ! c) (int x, int y) \<longrightarrow>
               getpixel (fst (frames ! k)) x y =
                 (if int c \<in> set (snd (frames ! k)) then getpixel sample_image x y
                  else (128, 128, 128))"
    and m: "\<forall>k<9. set (snd (frames ! k)) \<subset> set (snd (frames ! (k + 1))) \<and>
                   ?perm ! k - 1 \<notin> set (snd (frames ! k)) \<and>
                   set (snd (frames ! (k + 1))) = insert (?perm ! k - 1) (set (snd (frames ! k)))"
    and pic: "\<forall>k<9. \<forall>x y.
               x < size_w sample_image \<and> y < size_h sample_image \<longrightarrow>
               getpixel (fst (frames ! (k + 1))) x y =
                 (if in_rect (?G ! nat (?perm ! k - 1)) (int x, int y)
                  then getpixel sample_image x y else getpixel (fst (frames ! k)) x y)"
    and seen: "\<forall>k<10. \<forall>c<9. coloured_in sample_image (?G ! c) \<longrightarrow>
               coloured_in (fst (frames ! k)) (?G ! c) = (int c \<in> set (snd (frames ! k)))"
    by blast
  have sz: "size_w sample_image = 3" "size_h sample_image = 3"
    by (simp_all add: sample_image_def)
  have u2: "[0..<2] = [0, 1]" and u3: "[0..<3] = [0, 1, 2]"
    by (simp_all add: upt_rec)
  have g6: "get_grid_coordinates 3 3 ! 6 = (0, 2, 1, 3)"
    and g8: "get_grid_coordinates 3 3 ! 8 = (2, 2, 3, 3)"
    and g7: "get_grid_coordinates 3 3 ! 7 = (1, 2, 2, 3)"
    by (simp_all add: get_grid_coordinates_unfold)
  have a: "snd (frames ! 2) = [8, 7]"
    using l [rule_format, of 2] by (simp add: u2)
  have b: "snd (frames ! 3) = [8, 7, 6]"
    using l [rule_format, of 3] by (simp add: u3)
  have c: "set (snd (frames ! 2)) \<subset> set (snd (frames ! 3))"
    using m [rule_format, of 2, THEN conjunct1] by simp
  have e: "getpixel (fst (frames ! 2)) 0 2 = (128, 128, 128)"
    using cells [rule_format, of 2 6 0 2] by (simp add: sz g6 a)
  have g: "getpixel (fst (frames ! 3)) 0 2 = getpixel sample_image 0 2"
    using cells [rule_format, of 3 6 0 2] by (simp add: sz g6 b)
  have h: "getpixel (fst (frames ! 3)) 1 1 = getpixel (fst (frames ! 2)) 1 1"
    using pic [rule_format, of 2 1 1] by (simp add: sz g6)
  have col: "coloured_in sample_image (get_grid_coordinates 3 3 ! 6)"
    by code_simp
  have i: "\<not> coloured_in (fst (frames ! 2)) (get_grid_coordinates 3 3 ! 6)"
    using seen [rule_format, of 2 6] col by (simp add: sz a)
  have j: "coloured_in (fst (frames ! 3)) (get_grid_coordinates 3 3 ! 6)"
    using seen [rule_format, of 3 6] col by (simp add: sz b)
  show ?thesis
    using is_permutation_reverse f a b c e g h i j by blast
qed

text \<open>
  C10. For every permutation the validator of either program accepts: in every frame
  \<open>k\<close> from 1 to 9 and for every \<open>i < k\<close>, \<^verbatim>\<open>permutation[i]\<close> is in range, the index
  \<^verbatim>\<open>permutation[i] - 1\<close> lies in \<open>0 .. 8\<close> and the lookup in the grid succeeds; the
  renderer returns its 10 frames for every image, and no frame has a cell pasted twice.
\<close>

theorem grid_lookups_in_bounds:
  assumes "validate_permutation maxd s = ([], Inr perm) \<or>
           gifboxes_validate_permutation maxd s = ([], Inr perm)"
  shows "(\<forall>k\<in>{1..9}. \<forall>i<k.
            py_index perm (int i) = Inr (perm ! i) \<and> perm ! i - 1 \<in> {0..8} \<and>
            (\<forall>w h. py_index (get_grid_coordinates w h) (perm ! i - 1) =
                      Inr (get_grid_coordinates w h ! nat (perm ! i - 1)))) \<and>
         (\<forall>img. \<exists>frames. unveil_frames img perm = Inr frames \<and>
                   gifboxes_unveil_frames img perm = Inr frames \<and> length frames = 10 \<and>
                   (\<forall>k<10. distinct (snd (frames ! k))))"
proof (intro conjI ballI allI impI)
  have p: "length perm = 9" "set perm = {1..9}"
    using assms validate_permutation_accepts [of maxd s perm]
      gifboxes_validate_permutation_accepts [of maxd s perm] by auto
  have d: "distinct perm" by (rule valid_permutation_distinct [OF p])
  {
    fix k i :: nat
    assume "k \<in> {1..9}" "i < k"
    then have i: "i < 9" by simp
    have r: "1 \<le> perm ! i \<and> perm ! i \<le> 9" by (rule valid_permutation_nth [OF p i])
    show "py_index perm (int i) = Inr (perm ! i)"
      using i p(1) by (simp add: py_index_in_range)
    show "perm ! i - 1 \<in> {0..8}" using r by simp
    fix w h
    show "py_index (get_grid_coordinates w h) (perm ! i - 1) =
            Inr (get_grid_coordinates w h ! nat (perm ! i - 1))"
      using r by (simp add: py_index_in_range length_get_grid_coordinates)
  }
  fix img
  let ?frames = "map (frame_at img perm) [0..<10]"
  have "distinct (snd (?frames ! k))" if "k < 10" for k
  proof -
    have "distinct (map (\<lambda>i. perm ! i - 1) [0..<k])"
      using d p(1) that by (auto simp add: distinct_map inj_on_def nth_eq_iff_index_eq)
    then show ?thesis using that by (simp add: frame_at_pasted)
  qed
  moreover have "unveil_frames img perm = Inr ?frames"
    by (rule unveil_frames_eq [OF p])
  moreover have "length ?frames = 10" by simp
  ultimately show "\<exists>frames. unveil_frames img perm = Inr frames \<and>
                   gifboxes_unveil_frames img perm = Inr frames \<and> length frames = 10 \<and>
                   (\<forall>k<10. distinct (snd (frames ! k)))"
    unfolding gifboxes_unveil_frames_eq by blast
qed

theorem grid_lookups_in_bounds_witness:
  "validate_permutation 4300 ''987654321'' = ([], Inr [9, 8, 7, 6, 5, 4, 3, 2, 1]) \<and>
   py_index [9, 8, 7, 6, 5, 4, 3, 2, 1 :: int] 0 = Inr 9 \<and>
   py_index (get_grid_coordinates 3 3) ([9, 8, 7, 6, 5, 4, 3, 2, 1] ! 0 - 1) = Inr (2, 2, 3, 3) \<and>
   (\<exists>frames. unveil_frames sample_image [9, 8, 7, 6, 5, 4, 3, 2, 1] = Inr frames \<and>
      length frames = 10 \<and> distinct (snd (frames ! 9)))"
proof -
  let ?perm = "[9, 8, 7, 6, 5, 4, 3, 2, 1] :: int list"
  have v: "validate_permutation 4300 ''987654321'' = ([], Inr ?perm)"
    by code_simp
  note t = grid_lookups_in_bounds [OF disjI1 [OF v]]
  have k: "(1::nat) \<in> {1..9}" by simp
  have a: "py_index ?perm 0 = Inr 9"
    using t [THEN conjunct1, rule_format, OF k, of 0] by simp
  have b: "py_index (get_grid_coordinates 3 3) (?perm ! 0 - 1) = Inr (2, 2, 3, 3)"
    using t [THEN conjunct1, rule_format, OF k, of 0, THEN conjunct2, THEN conjunct2,
        rule_format, of 3 3]
    by (simp add: get_grid_coordinates_unfold)
  from t [THEN conjunct2, rule_format, of sample_image]
  obtain frames where f: "unveil_frames sample_image ?perm = Inr frames" "length frames = 10"
    "\<forall>k<10. distinct (snd (frames ! k))"
    by blast
  from f(3) have "distinct (snd (frames ! 9))" by simp
  with v a b f(1,2) show ?thesis by blast
qed

text \<open>
  C7. The partitioner returns 9 boxes for every width and height: it has no failing case
  and no branch on the size. For the width and height of an image (natural numbers) of
  which one is below 3, some of the 9 boxes have width 0 or height 0: those of the first
  two columns when the width is below 3, those of the first two rows when the height is.
  The renderer takes such a partition as it is: for an image narrower or lower than 3
  pixels and a valid permutation it returns its 10 frames.
\<close>

theorem degenerate_partition:
  "length (get_grid_coordinates width height) = 9 \<and>
   (w < 3 \<or> h < 3 \<longrightarrow>
      list_ex zero_extent (get_grid_coordinates (int w) (int h))) \<and>
   (w < 3 \<longrightarrow>
      (\<forall>i<9. rect_width (get_grid_coordinates (int w) (int h) ! i) =
                (if i mod 3 < 2 then 0 else int w))) \<and>
   (h < 3 \<longrightarrow>
      (\<forall>i<9. rect_height (get_grid_coordinates (int w) (int h) ! i) =
                (if i div 3 < 2 then 0 else int h))) \<and>
   (is_permutation perm \<and> (size_w img < 3 \<or> size_h img < 3) \<longrightarrow>
      list_ex zero_extent (get_grid_coordinates (int (size_w img)) (int (size_h img))) \<and>
      (\<exists>frames. unveil_frames img perm = Inr frames \<and> length frames = 10))"
proof -
  have zero: "list_ex zero_extent (get_grid_coordinates (int a) (int b))"
    if "a < 3 \<or> b < 3" for a b :: nat
  proof -
    from that have "int a div 3 = 0 \<or> int b div 3 = 0"
      by auto
    then have "zero_extent (0, 0, int a div 3, int b div 3)"
      by (auto simp add: zero_extent_def)
    then show ?thesis
      by (simp add: get_grid_coordinates_unfold)
  qed
  have wd: "rect_width (get_grid_coordinates (int w) (int h) ! i) =
              (if i mod 3 < 2 then 0 else int w)"
    if "w < 3" "i < 9" for i
  proof -
    have "int w div 3 = 0" using that(1) by simp
    then show ?thesis
      using less_9_cases [OF that(2)]
      by (elim disjE) (simp_all add: get_grid_coordinates_unfold)
  qed
  have ht: "rect_height (get_grid_coordinates (int w) (int h) ! i) =
              (if i div 3 < 2 then 0 else int h)"
    if "h < 3" "i < 9" for i
  proof -
    have "int h div 3 = 0" using that(1) by simp
    then show ?thesis
      using less_9_cases [OF that(2)]
      by (elim disjE) (simp_all add: get_grid_coordinates_unfold)
  qed
  have run: "\<exists>frames. unveil_frames img perm = Inr frames \<and> length frames = 10"
    if "is_permutation perm"
  proof -
    from that have p: "length perm = 9" "set perm = {1..9}"
      by (simp_all add: is_permutation_iff)
    show ?thesis
      using unveil_frames_eq [OF p, of img] by simp
  qed
  show ?thesis
    using length_get_grid_coordinates [of width height] zero wd ht run by blast
qed

theorem degenerate_partition_witness:
  "(2::nat) < 3 \<and>
   length (get_grid_coordinates 2 7) = 9 \<and>
   list_ex zero_extent (get_grid_coordinates 2 7) \<and>
   map rect_width (get_grid_coordinates 2 7) = [0, 0, 2, 0, 0, 2, 0, 0, 2] \<and>
   map rect_height (get_grid_coordinates 7 2) = [0, 0, 0, 0, 0, 0, 2, 2, 2] \<and>
   get_grid_coordinates 2 7 ! 0 = (0, 0, 0, 2) \<and>
   is_permutation [9, 8, 7, 6, 5, 4, 3, 2, 1] \<and>
   (\<exists>frames. unveil_frames (Image_new 2 7 (0, 0, 0)) [9, 8, 7, 6, 5, 4, 3, 2, 1] = Inr frames \<and>
      length frames = 10)"
proof -
  have s: "size_w (Image_new 2 7 (0, 0, 0)) < 3"
    by (simp add: Image_new_def)
  note t = degenerate_partition [of 2 7 2 7 "[9, 8, 7, 6, 5, 4, 3, 2, 1]" "Image_new 2 7 (0, 0, 0)"]
  note t' = degenerate_partition [of 7 2 7 2 "[9, 8, 7, 6, 5, 4, 3, 2, 1]" "Image_new 2 7 (0, 0, 0)"]
  have "\<exists>frames. unveil_frames (Image_new 2 7 (0, 0, 0)) [9, 8, 7, 6, 5, 4, 3, 2, 1] = Inr frames \<and>
          length frames = 10"
    using t [THEN conjunct2, THEN conjunct2, THEN conjunct2, THEN conjunct2]
      is_permutation_reverse s by blast
  moreover have "list_ex zero_extent (get_grid_coordinates 2 7)"
    using t [THEN conjunct2, THEN conjunct1] by simp
  moreover have "map rect_width (get_grid_coordinates 2 7) = [0, 0, 2, 0, 0, 2, 0, 0, 2]"
    by (simp add: get_grid_coordinates_unfold)
  moreover have "rect_width (get_grid_coordinates 2 7 ! 4) = 0"
    using t [THEN conjunct2, THEN conjunct2, THEN conjunct1, rule_format, of 4] by simp
  moreover have "map rect_height (get_grid_coordinates 7 2) = [0, 0, 0, 0, 0, 0, 2, 2, 2]"
    by (simp add: get_grid_coordinates_unfold)
  ultimately show ?thesis
    using t [THEN conjunct1] is_permutation_reverse
    by (simp add: get_grid_coordinates_unfold)
qed

section \<open>Claims about whole runs\<close>

lemma build_frames_length:
  "build_frames img grid perm ks acc = Inr frames \<Longrightarrow> length frames = length acc + length ks"
proof (induction ks arbitrary: acc)
  case Nil
  then show ?case by simp
next
  case (Cons k ks)
  then show ?case by (auto split: sum.splits)
qed

lemma unveil_frames_length:
  assumes "unveil_frames img perm = Inr frames"
  shows "length frames = 10"
  using build_frames_length [OF assms [unfolded unveil_frames_def Let_def]] by simp

lemma create_unveil_gif_cases:
  "(\<exists>e. create_unveil_gif ev p perm out d = ([ImageOpen p, Print (ErrorCreatingGIF e)], Inl 1)) \<or>
   (\<exists>call e left. create_unveil_gif ev p perm out d =
      ([ImageOpen p, Save call (SaveFailed e left), Print (ErrorCreatingGIF e)], Inl 1)) \<or>
   (\<exists>call e. create_unveil_gif ev p perm out d =
      ([ImageOpen p, Save call Saved, Print (ErrorCreatingGIF e)], Inl 1) \<and>
      save_path call = out \<and> print_raises ev (GIFCreated out) = Some e) \<or>
   (\<exists>call. create_unveil_gif ev p perm out d =
      ([ImageOpen p, Save call Saved, Print (GIFCreated out)], Inr ()))"
  by (auto simp add: create_unveil_gif_def unveil_body_def Let_def
      split: sum.splits list.splits save_outcome.splits option.splits)

lemma gifboxes_create_unveil_gif_cases:
  "(\<exists>e. gifboxes_create_unveil_gif ev p perm out = ([ImageOpen p, Print (ErrorCreatingGIF e)], Inl 1)) \<or>
   (\<exists>call e left. gifboxes_create_unveil_gif ev p perm out =
      ([ImageOpen p, Save call (SaveFailed e left), Print (ErrorCreatingGIF e)], Inl 1)) \<or>
   (\<exists>call e. gifboxes_create_unveil_gif ev p perm out =
      ([ImageOpen p, Save call Saved, Print (ErrorCreatingGIF e)], Inl 1) \<and>
      save_path call = out \<and> print_raises ev (GIFCreated out) = Some e) \<or>
   (\<exists>call. gifboxes_create_unveil_gif ev p perm out =
      ([ImageOpen p, Save call Saved, Print (GIFCreated out)], Inr ()))"
  by (auto simp add: gifboxes_create_unveil_gif_def gifboxes_unveil_body_def Let_def
      split: sum.splits list.splits save_outcome.splits option.splits)

lemma validate_permutation_cases:
  "(\<exists>e. validate_permutation maxd s = ([Print (ErrorParsingPermutation e)], Inl 1)) \<or>
   (\<exists>perm. validate_permutation maxd s = ([], Inr perm))"
  by (auto simp add: validate_permutation_def split: sum.splits)

lemma gifboxes_validate_permutation_cases:
  "(\<exists>e. gifboxes_validate_permutation maxd s = ([Print (ErrorParsingPermutation e)], Inl 1)) \<or>
   (\<exists>perm. gifboxes_validate_permutation maxd s = ([], Inr perm))"
  by (auto simp add: gifboxes_validate_permutation_def split: sum.splits)

lemma main_unfold:
  "main ev args =
     (case path_exists ev (arg_image args) of
        Inl e \<Rightarrow> ([Print (Traceback e)], 1)
      | Inr found \<Rightarrow>
          if \<not> found then ([Print (ImageNotFound (arg_image args))], 1)
          else
            case (case arg_output args of
                    None \<Rightarrow> with_suffix_gif ev (arg_image args)
                  | Some out \<Rightarrow> Inr out) of
              Inl e \<Rightarrow> ([Print (Traceback e)], 1)
            | Inr output \<Rightarrow>
                (case validate_permutation (int_max_str_digits ev) (arg_permutation args) of
                   (evs, Inl status) \<Rightarrow> (evs, status)
                 | (evs, Inr permutation) \<Rightarrow>
                     (fst (validate_permutation (int_max_str_digits ev) (arg_permutation args)) @
                      fst (create_unveil_gif ev (arg_image args) permutation output
                             (arg_duration args)),
                      case snd (create_unveil_gif ev (arg_image args) permutation output
                                  (arg_duration args)) of
                        Inl status \<Rightarrow> status
                      | Inr u \<Rightarrow> 0)))"
  by (simp add: main_def split: sum.splits prod.splits)

lemma gifboxes_main_unfold:
  "gifboxes_main ev args =
     (case path_exists ev (gb_image args) of
        Inl e \<Rightarrow> ([Print (Traceback e)], 1)
      | Inr found \<Rightarrow>
          if \<not> found then ([Print (ImageNotFound (gb_image args))], 1)
          else
            case gifboxes_validate_permutation (int_max_str_digits ev) (gb_permutation args) of
              (evs, Inl status) \<Rightarrow> (evs, status)
            | (evs, Inr permutation) \<Rightarrow>
                (fst (gifboxes_validate_permutation (int_max_str_digits ev)
                        (gb_permutation args)) @
                 fst (gifboxes_create_unveil_gif ev (gb_image args) permutation (gb_output args)),
                 case snd (gifboxes_create_unveil_gif ev (gb_image args) permutation
                             (gb_output args)) of
                   Inl status \<Rightarrow> status
                 | Inr u \<Rightarrow> 0))"
  by (simp add: gifboxes_main_def split: sum.splits prod.splits)

lemma run_ends_create:
  assumes "(\<exists>e. r = ([ImageOpen p, Print (ErrorCreatingGIF e)], Inl 1)) \<or>
           (\<exists>call e left. r =
              ([ImageOpen p, Save call (SaveFailed e left), Print (ErrorCreatingGIF e)], Inl 1)) \<or>
           (\<exists>call e. r = ([ImageOpen p, Save call Saved, Print (ErrorCreatingGIF e)], Inl 1) \<and>
              save_path call = out \<and> print_raises ev (GIFCreated out) = Some e) \<or>
           (\<exists>call. r = ([ImageOpen p, Save call Saved, Print (GIFCreated out)], Inr ()))"
  shows "run_ends ev (fst r, case snd r of Inl status \<Rightarrow> status | Inr u \<Rightarrow> 0)"
  using assms by (elim disjE exE conjE) (simp_all add: run_ends_def)

lemma main_run_ends: "run_ends ev (main ev args)"
proof (cases "path_exists ev (arg_image args)")
  case (Inl e)
  then show ?thesis by (simp add: main_unfold run_ends_def)
next
  case found: (Inr found)
  show ?thesis
  proof (cases found)
    case False
    then show ?thesis using found by (simp add: main_unfold run_ends_def)
  next
    case True
    show ?thesis
    proof (cases "case arg_output args of None \<Rightarrow> with_suffix_gif ev (arg_image args)
                    | Some out \<Rightarrow> Inr out")
      case (Inl e)
      then show ?thesis using found True by (simp add: main_unfold run_ends_def)
    next
      case (Inr out)
      from validate_permutation_cases [of "int_max_str_digits ev" "arg_permutation args"]
      show ?thesis
      proof (elim disjE exE)
        fix e
        assume "validate_permutation (int_max_str_digits ev) (arg_permutation args) =
                  ([Print (ErrorParsingPermutation e)], Inl 1)"
        then show ?thesis using found True Inr by (simp add: main_unfold run_ends_def)
      next
        fix perm
        assume v: "validate_permutation (int_max_str_digits ev) (arg_permutation args) =
                     ([], Inr perm)"
        from run_ends_create [OF create_unveil_gif_cases
            [of ev "arg_image args" perm out "arg_duration args"]]
        show ?thesis using found True Inr v by (simp add: main_unfold)
      qed
    qed
  qed
qed

lemma gifboxes_main_run_ends: "run_ends ev (gifboxes_main ev args)"
proof (cases "path_exists ev (gb_image args)")
  case (Inl e)
  then show ?thesis by (simp add: gifboxes_main_unfold run_ends_def)
next
  case found: (Inr found)
  show ?thesis
  proof (cases found)
    case False
    then show ?thesis using found by (simp add: gifboxes_main_unfold run_ends_def)
  next
    case True
    from gifboxes_validate_permutation_cases [of "int_max_str_digits ev" "gb_permutation args"]
    show ?thesis
    proof (elim disjE exE)
      fix e
      assume "gifboxes_validate_permutation (int_max_str_digits ev) (gb_permutation args) =
                ([Print (ErrorParsingPermutation e)], Inl 1)"
      then show ?thesis using found True by (simp add: gifboxes_main_unfold run_ends_def)
    next
      fix perm
      assume v: "gifboxes_validate_permutation (int_max_str_digits ev) (gb_permutation args) =
                   ([], Inr perm)"
      from run_ends_create [OF gifboxes_create_unveil_gif_cases
          [of ev "gb_image args" perm "gb_output args"]]
      show ?thesis using found True v by (simp add: gifboxes_main_unfold)
    qed
  qed
qed

lemma create_unveil_gif_save_duration:
  assumes "Save call r \<in> set (fst (create_unveil_gif ev p perm out d))"
  shows "frame_duration_ms (float_round ev) d 10 = Inr (save_duration call) \<and>
         save_loop call = None \<and> save_path call = out"
  using assms
  by (auto simp add: create_unveil_gif_def unveil_body_def Let_def
      split: sum.splits list.splits save_outcome.splits option.splits
      dest!: unveil_frames_length)

lemma gifboxes_create_unveil_gif_save_duration:
  assumes "Save call r \<in> set (fst (gifboxes_create_unveil_gif ev p perm out))"
  shows "save_duration call = 500 \<and> save_loop call = Some 0 \<and> save_path call = out"
  using assms
  by (auto simp add: gifboxes_create_unveil_gif_def gifboxes_unveil_body_def Let_def
      split: sum.splits list.splits save_outcome.splits option.splits)

lemma frame_duration_ms_finite:
  assumes "frame_duration_ms rnd (Finite q) 10 = Inr n"
  shows "\<exists>q1 q2. rnd (q * 1000) = Finite q1 \<and> rnd (q1 / 10) = Finite q2 \<and> n = py_trunc q2"
  using assms
  by (auto simp add: frame_duration_ms_def float_div_int_def float_mul_int_def int_of_float_def
      split: pyfloat.splits sum.splits)

lemma validate_permutation_rejects:
  assumes "validate_permutation maxd s = (evs, Inl st)"
  shows "st = 1 \<and> (\<exists>e. evs = [Print (ErrorParsingPermutation e)])"
  using assms by (auto simp add: validate_permutation_def split: sum.splits)

lemma gifboxes_validate_permutation_rejects:
  assumes "gifboxes_validate_permutation maxd s = (evs, Inl st)"
  shows "st = 1 \<and> (\<exists>e. evs = [Print (ErrorParsingPermutation e)])"
  using assms by (auto simp add: gifboxes_validate_permutation_def split: sum.splits)

lemma main_rejected:
  assumes "validate_permutation (int_max_str_digits ev) (arg_permutation args) = (evs, Inl st)"
  shows "main ev args =
           (case path_exists ev (arg_image args) of
              Inl e \<Rightarrow> ([Print (Traceback e)], 1)
            | Inr found \<Rightarrow>
                if \<not> found then ([Print (ImageNotFound (arg_image args))], 1)
                else case (case arg_output args of
                             None \<Rightarrow> with_suffix_gif ev (arg_image args)
                           | Some out \<Rightarrow> Inr out) of
                       Inl e \<Rightarrow> ([Print (Traceback e)], 1)
                     | Inr out \<Rightarrow> (evs, st))"
  using assms by (simp add: main_def split: sum.splits)

lemma gifboxes_main_rejected:
  assumes "gifboxes_validate_permutation (int_max_str_digits ev) (gb_permutation args) = (evs, Inl st)"
  shows "gifboxes_main ev args =
           (case path_exists ev (gb_image args) of
              Inl e \<Rightarrow> ([Print (Traceback e)], 1)
            | Inr found \<Rightarrow>
                if \<not> found then ([Print (ImageNotFound (gb_image args))], 1)
                else (evs, st))"
  using assms by (simp add: gifboxes_main_def split: sum.splits)

lemma main_save_call:
  assumes "Save call r \<in> set (fst (main ev args))"
  shows "frame_duration_ms (float_round ev) (arg_duration args) 10 = Inr (save_duration call) \<and>
         save_loop call = None"
proof -
  from validate_permutation_cases [of "int_max_str_digits ev" "arg_permutation args"]
  show ?thesis
  proof (elim disjE exE)
    fix e
    assume "validate_permutation (int_max_str_digits ev) (arg_permutation args) =
              ([Print (ErrorParsingPermutation e)], Inl 1)"
    then show ?thesis
      using assms by (auto simp add: main_unfold split: sum.splits if_splits)
  next
    fix perm
    assume "validate_permutation (int_max_str_digits ev) (arg_permutation args) = ([], Inr perm)"
    then show ?thesis
      using assms
      by (auto simp add: main_unfold split: sum.splits if_splits
          dest: create_unveil_gif_save_duration)
  qed
qed

lemma gifboxes_main_save_call:
  assumes "Save call r \<in> set (fst (gifboxes_main ev args))"
  shows "save_duration call = 500 \<and> save_loop call = Some 0"
proof -
  from gifboxes_validate_permutation_cases [of "int_max_str_digits ev" "gb_permutation args"]
  show ?thesis
  proof (elim disjE exE)
    fix e
    assume "gifboxes_validate_permutation (int_max_str_digits ev) (gb_permutation args) =
              ([Print (ErrorParsingPermutation e)], Inl 1)"
    then show ?thesis
      using assms by (auto simp add: gifboxes_main_unfold split: sum.splits if_splits)
  next
    fix perm
    assume "gifboxes_validate_permutation (int_max_str_digits ev) (gb_permutation args) =
              ([], Inr perm)"
    then show ?thesis
      using assms
      by (auto simp add: gifboxes_main_unfold split: sum.splits if_splits
          dest: gifboxes_create_unveil_gif_save_duration)
  qed
qed

text \<open>
  The two \<^verbatim>\<open>create_unveil_gif\<close> side by side, where the orientation step leaves the
  loaded image as it is, the duration can be computed and the encoder's outcome does not
  depend on duration and loop: the same status, and the same events up to the duration
  and the loop argument of the \<^verbatim>\<open>save\<close> call.
\<close>

lemma create_unveil_gif_erased:
  assumes o: "\<forall>opened. image_open ev p = Inr opened \<longrightarrow> exif_transpose opened = pixels opened"
    and d: "frame_duration_ms (float_round ev) d 10 = Inr ms"
    and s: "\<forall>c c'. erase_call c = erase_call c' \<longrightarrow> gif_save ev c = gif_save ev c'"
  shows "snd (gifboxes_create_unveil_gif ev p perm out) = snd (create_unveil_gif ev p perm out d) \<and>
         map erase_encoding (fst (gifboxes_create_unveil_gif ev p perm out)) =
         map erase_encoding (fst (create_unveil_gif ev p perm out d))"
proof (cases "image_open ev p")
  case (Inl e)
  then show ?thesis
    by (simp add: create_unveil_gif_def unveil_body_def gifboxes_create_unveil_gif_def
        gifboxes_unveil_body_def)
next
  case (Inr opened)
  then have t: "exif_transpose opened = pixels opened" using o by blast
  show ?thesis
  proof (cases "unveil_frames (pixels opened) perm")
    case (Inl e)
    then show ?thesis
      using Inr t
      by (simp add: create_unveil_gif_def unveil_body_def gifboxes_create_unveil_gif_def
          gifboxes_unveil_body_def gifboxes_unveil_frames_eq)
  next
    case frames: (Inr frames)
    have l: "length frames = 10" by (rule unveil_frames_length [OF frames])
    then obtain f fs where f: "map fst frames = f # fs"
      by (cases frames) auto
    let ?A = "\<lparr>save_path = out, save_first = f, save_append_images = fs,
                save_duration = ms, save_loop = None\<rparr>"
    let ?B = "\<lparr>save_path = out, save_first = f, save_append_images = fs,
                save_duration = 500, save_loop = Some 0\<rparr>"
    have "erase_call ?B = erase_call ?A" by (simp add: erase_call_def)
    then have g: "gif_save ev ?B = gif_save ev ?A" using s by blast
    show ?thesis
      using Inr t frames l f d g
      by (cases "gif_save ev ?A"; cases "print_raises ev (GIFCreated out)")
        (simp_all add: create_unveil_gif_def unveil_body_def gifboxes_create_unveil_gif_def
          gifboxes_unveil_body_def gifboxes_unveil_frames_eq Let_def erase_call_def)
  qed
qed

lemma main_erased:
  assumes i: "gb_image gargs = arg_image args"
    and out: "(case arg_output args of None \<Rightarrow> with_suffix_gif ev (arg_image args)
               | Some out \<Rightarrow> Inr out) = Inr (gb_output gargs)"
    and v: "gifboxes_validate_permutation (int_max_str_digits ev) (gb_permutation gargs) =
            validate_permutation (int_max_str_digits ev) (arg_permutation args)"
    and o: "\<forall>opened. image_open ev (arg_image args) = Inr opened \<longrightarrow>
              exif_transpose opened = pixels opened"
    and d: "frame_duration_ms (float_round ev) (arg_duration args) 10 = Inr ms"
    and s: "\<forall>c c'. erase_call c = erase_call c' \<longrightarrow> gif_save ev c = gif_save ev c'"
  shows "snd (gifboxes_main ev gargs) = snd (main ev args) \<and>
         map erase_encoding (fst (gifboxes_main ev gargs)) =
         map erase_encoding (fst (main ev args))"
proof -
  from validate_permutation_cases [of "int_max_str_digits ev" "arg_permutation args"]
  show ?thesis
  proof (elim disjE exE)
    fix e
    assume "validate_permutation (int_max_str_digits ev) (arg_permutation args) =
              ([Print (ErrorParsingPermutation e)], Inl 1)"
    then show ?thesis
      using i out v
      by (simp add: main_unfold gifboxes_main_unfold split: sum.splits)
  next
    fix perm
    assume "validate_permutation (int_max_str_digits ev) (arg_permutation args) = ([], Inr perm)"
    then show ?thesis
      using i out v
        create_unveil_gif_erased [OF o d s, of perm "gb_output gargs"]
      by (simp add: main_unfold gifboxes_main_unfold split: sum.splits)
  qed
qed

text \<open>
  A difference between the programs that the comparison below leaves aside: an image file
  with an EXIF orientation is turned upright by \<^verbatim>\<open>src/gif_unveil.py\<close> before rendering
  (\<^verbatim>\<open>ImageOps.exif_transpose\<close>, there "to fix rotation issues"), while
  \<^verbatim>\<open>src/gifboxes/gif_unveil.py\<close> has no such step and renders the image as stored. For
  orientation 6 the last frame of the first is the stored image turned by a quarter, that
  of the second the stored image.
\<close>

lemma orientation_changes_frames:
  "last (frames_handed_over (fst (create_unveil_gif rotated_env ''photo.png''
                                    [9, 8, 7, 6, 5, 4, 3, 2, 1] ''out.gif'' (Finite 12)))) =
     \<lparr>size_w = 3, size_h = 3,
      rows = [[(7, 0, 0), (4, 0, 0), (1, 0, 0)],
              [(8, 0, 0), (5, 0, 0), (2, 0, 0)],
              [(9, 0, 0), (6, 0, 0), (3, 0, 0)]]\<rparr> \<and>
   last (frames_handed_over (fst (gifboxes_create_unveil_gif rotated_env ''photo.png''
                                    [9, 8, 7, 6, 5, 4, 3, 2, 1] ''out.gif''))) =
     \<lparr>size_w = 3, size_h = 3,
      rows = [[(1, 0, 0), (2, 0, 0), (3, 0, 0)],
              [(4, 0, 0), (5, 0, 0), (6, 0, 0)],
              [(7, 0, 0), (8, 0, 0), (9, 0, 0)]]\<rparr>"
  by code_simp

text \<open>
  C5 (as amended). Every run of either program, from the parsed command line on, ends in
  one of two ways. Either nothing fails: the status is 0, no error message is printed and
  the encoder's one \<^verbatim>\<open>save\<close> call returned. Or a step fails: the status is not 0, an
  error message is printed, and nothing is undone or tried again. What is then at the
  output path depends on the step that failed: if the encoder was never called, the run
  wrote nothing; if the encoder's \<^verbatim>\<open>save\<close> raised, the path holds whatever the encoder
  left there; if \<^verbatim>\<open>save\<close> returned and the line that reports it could not be printed,
  the complete file is there.
\<close>

theorem failing_run_reports_and_exits:
  "((snd (main ev args) = 0 \<and> \<not> list_ex prints_error (fst (main ev args)) \<and>
       (\<exists>call. filter is_save (fst (main ev args)) = [Save call Saved])) \<or>
    (snd (main ev args) \<noteq> 0 \<and> list_ex prints_error (fst (main ev args)) \<and>
       (filter is_save (fst (main ev args)) = [] \<or>
        (\<exists>call e left. filter is_save (fst (main ev args)) = [Save call (SaveFailed e left)]) \<or>
        (\<exists>call. filter is_save (fst (main ev args)) = [Save call Saved] \<and>
                print_raises ev (GIFCreated (save_path call)) \<noteq> None)))) \<and>
   ((snd (gifboxes_main ev gargs) = 0 \<and> \<not> list_ex prints_error (fst (gifboxes_main ev gargs)) \<and>
       (\<exists>call. filter is_save (fst (gifboxes_main ev gargs)) = [Save call Saved])) \<or>
    (snd (gifboxes_main ev gargs) \<noteq> 0 \<and> list_ex prints_error (fst (gifboxes_main ev gargs)) \<and>
       (filter is_save (fst (gifboxes_main ev gargs)) = [] \<or>
        (\<exists>call e left. filter is_save (fst (gifboxes_main ev gargs)) =
           [Save call (SaveFailed e left)]) \<or>
        (\<exists>call. filter is_save (fst (gifboxes_main ev gargs)) = [Save call Saved] \<and>
                print_raises ev (GIFCreated (save_path call)) \<noteq> None))))"
  using main_run_ends [of ev args] gifboxes_main_run_ends [of ev gargs]
  by (simp add: run_ends_def Let_def)

theorem failing_run_witness:
  "snd (main sample_env sample_args) = 0 \<and>
   list_ex completes_file (fst (main sample_env sample_args)) \<and>
   snd (main sample_env (sample_args\<lparr>arg_permutation := ''12345678''\<rparr>)) = 1 \<and>
   list_ex prints_error (fst (main sample_env (sample_args\<lparr>arg_permutation := ''12345678''\<rparr>))) \<and>
   filter is_save (fst (main sample_env (sample_args\<lparr>arg_permutation := ''12345678''\<rparr>))) = [] \<and>
   snd (gifboxes_main disk_full_env gifboxes_sample_args) = 1 \<and>
   list_ex prints_error (fst (gifboxes_main disk_full_env gifboxes_sample_args))"
proof -
  have a: "snd (main sample_env sample_args) = 0"
    by code_simp
  have b: "snd (main sample_env (sample_args\<lparr>arg_permutation := ''12345678''\<rparr>)) = 1"
    by code_simp
  have c: "filter is_save (fst (main sample_env (sample_args\<lparr>arg_permutation := ''12345678''\<rparr>))) = []"
    by code_simp
  have g: "snd (gifboxes_main disk_full_env gifboxes_sample_args) = 1"
    by code_simp
  from failing_run_reports_and_exits [of sample_env sample_args] a
  have "\<exists>call. filter is_save (fst (main sample_env sample_args)) = [Save call Saved]"
    by simp
  then obtain call where eq: "filter is_save (fst (main sample_env sample_args)) = [Save call Saved]"
    by blast
  have "Save call Saved \<in> set (filter is_save (fst (main sample_env sample_args)))"
    by (simp add: eq)
  then have "Save call Saved \<in> set (fst (main sample_env sample_args))"
    by simp
  then have d: "list_ex completes_file (fst (main sample_env sample_args))"
    unfolding list_ex_iff by (rule bexI [rotated]) simp
  from failing_run_reports_and_exits [of sample_env "sample_args\<lparr>arg_permutation := ''12345678''\<rparr>"] b
  have e: "list_ex prints_error (fst (main sample_env (sample_args\<lparr>arg_permutation := ''12345678''\<rparr>)))"
    by simp
  from failing_run_reports_and_exits [of disk_full_env _ gifboxes_sample_args] g
  have h: "list_ex prints_error (fst (gifboxes_main disk_full_env gifboxes_sample_args))"
    by simp
  from a b c d e g h show ?thesis by simp
qed

text \<open>
  The claim as stated, no output file after a failure, does not hold for the last two
  kinds of failure. The programs write straight to the output path and do not clean up in
  the handler, so where \<^verbatim>\<open>save\<close> raises after writing part of the file (a full disk,
  say) the run ends with status 1 and an incomplete file at the output path. And the line
  that reports success is printed inside the \<^verbatim>\<open>try\<close> block after \<^verbatim>\<open>save\<close>: where that
  \<^verbatim>\<open>print\<close> raises (an output path the terminal's encoding cannot show), the run ends
  with an error message and status 1 although the file is complete.
\<close>

theorem partial_file_counterexample:
  "snd (main disk_full_env sample_args) = 1 \<and>
   list_ex prints_error (fst (main disk_full_env sample_args)) \<and>
   list_ex leaves_partial_file (fst (main disk_full_env sample_args)) \<and>
   snd (gifboxes_main disk_full_env gifboxes_sample_args) = 1 \<and>
   list_ex leaves_partial_file (fst (gifboxes_main disk_full_env gifboxes_sample_args)) \<and>
   snd (main unprintable_env sample_args) = 1 \<and>
   list_ex prints_error (fst (main unprintable_env sample_args)) \<and>
   list_ex completes_file (fst (main unprintable_env sample_args)) \<and>
   snd (gifboxes_main unprintable_env gifboxes_sample_args) = 1 \<and>
   list_ex prints_error (fst (gifboxes_main unprintable_env gifboxes_sample_args)) \<and>
   list_ex completes_file (fst (gifboxes_main unprintable_env gifboxes_sample_args))"
  by code_simp

text \<open>
  C6. The duration handed to the encoder: in \<^verbatim>\<open>src/gif_unveil.py\<close> it is
  \<^verbatim>\<open>int((duration_seconds * 1000) / 10)\<close>, the divisor being the number of frames, which
  is always 10; for a finite result that is the product rounded to a double, divided by
  10, rounded to a double, with the fraction cut off. In \<^verbatim>\<open>src/gifboxes/gif_unveil.py\<close> it
  is the fixed value 500.
\<close>

theorem encoder_frame_duration:
  "(Save call r \<in> set (fst (create_unveil_gif ev p perm out d)) \<longrightarrow>
      frame_duration_ms (float_round ev) d 10 = Inr (save_duration call)) \<and>
   (frame_duration_ms rnd (Finite q) 10 = Inr n \<longrightarrow>
      (\<exists>q1 q2. rnd (q * 1000) = Finite q1 \<and> rnd (q1 / 10) = Finite q2 \<and> n = py_trunc q2)) \<and>
   (Save call' r' \<in> set (fst (gifboxes_create_unveil_gif ev p perm out)) \<longrightarrow>
      save_duration call' = 500)"
  using create_unveil_gif_save_duration [of call r ev p perm out d]
    gifboxes_create_unveil_gif_save_duration [of call' r' ev p perm out]
    frame_duration_ms_finite [of rnd q n]
  by blast

theorem encoder_frame_duration_witness:
  "map save_duration
     (saves (fst (create_unveil_gif sample_env ''photo.png'' [9, 8, 7, 6, 5, 4, 3, 2, 1]
                    ''photo.gif'' (Finite 12)))) = [1200] \<and>
   frame_duration_ms Finite (Finite 12) 10 = Inr 1200 \<and>
   py_trunc (12 * 1000 / 10) = 1200 \<and>
   frame_duration_ms Finite (Finite (19 / 1000)) 10 = Inr 1 \<and>
   map save_duration
     (saves (fst (gifboxes_create_unveil_gif sample_env ''photo.png'' [9, 8, 7, 6, 5, 4, 3, 2, 1]
                    ''output.gif''))) = [500]"
proof -
  let ?perm = "[9, 8, 7, 6, 5, 4, 3, 2, 1] :: int list"
  let ?A = "fst (create_unveil_gif sample_env ''photo.png'' ?perm ''photo.gif'' (Finite 12))"
  let ?B = "fst (gifboxes_create_unveil_gif sample_env ''photo.png'' ?perm ''output.gif'')"
  have ev: "float_round sample_env = Finite" by (simp add: sample_env_def)
  have a: "length (saves ?A) = 1 \<and> list_all (\<lambda>c. Save c Saved \<in> set ?A) (saves ?A)"
    by code_simp
  have b: "length (saves ?B) = 1 \<and> list_all (\<lambda>c. Save c Saved \<in> set ?B) (saves ?B)"
    by code_simp
  from a obtain c where c: "saves ?A = [c]" "Save c Saved \<in> set ?A"
    by (cases "saves ?A") auto
  from b obtain c' where c': "saves ?B = [c']" "Save c' Saved \<in> set ?B"
    by (cases "saves ?B") auto
  have d: "frame_duration_ms Finite (Finite 12) 10 = Inr 1200" by code_simp
  have d2: "frame_duration_ms Finite (Finite (19 / 1000)) 10 = Inr 1" by code_simp
  have tr: "py_trunc (12 * 1000 / 10) = 1200" by code_simp
  have "save_duration c = 1200"
    using encoder_frame_duration [of c Saved sample_env "''photo.png''" ?perm "''photo.gif''"
      "Finite 12"] c(2) d by (simp add: ev)
  moreover have "save_duration c' = 500"
    using encoder_frame_duration [of _ _ sample_env "''photo.png''" ?perm "''output.gif''" _ _ _ _
      c' Saved] c'(2) by simp
  ultimately show ?thesis using c(1) c'(1) d d2 tr by simp
qed

text \<open>
  C8 (as amended). Whenever the validator rejects the permutation argument, the run ends
  with a status other than 0 and an error message, without opening the image and without
  calling the encoder. The message is the validator's whenever the steps that come before
  the validator pass: the image path exists and, in \<^verbatim>\<open>src/gif_unveil.py\<close> when no output
  path is given, the default output path can be formed from the image path. Otherwise the
  run has ended before the permutation is looked at, and the message is that of the
  earlier step: the missing file's, or the traceback of the exception.
\<close>

theorem invalid_permutation_never_decodes:
  "(validate_permutation (int_max_str_digits ev) (arg_permutation args) = (evs, Inl st) \<longrightarrow>
      snd (main ev args) \<noteq> 0 \<and>
      \<not> list_ex is_image_open (fst (main ev args)) \<and>
      \<not> list_ex is_save (fst (main ev args)) \<and>
      list_ex prints_error (fst (main ev args)) \<and>
      (path_exists ev (arg_image args) = Inr True \<and>
       (arg_output args = None \<longrightarrow> (\<exists>out. with_suffix_gif ev (arg_image args) = Inr out)) \<longrightarrow>
         (\<exists>e. main ev args = ([Print (ErrorParsingPermutation e)], 1))) \<and>
      (path_exists ev (arg_image args) = Inr False \<longrightarrow>
         main ev args = ([Print (ImageNotFound (arg_image args))], 1)) \<and>
      (\<forall>e. path_exists ev (arg_image args) = Inl e \<or>
           (path_exists ev (arg_image args) = Inr True \<and> arg_output args = None \<and>
            with_suffix_gif ev (arg_image args) = Inl e) \<longrightarrow>
         main ev args = ([Print (Traceback e)], 1))) \<and>
   (gifboxes_validate_permutation (int_max_str_digits ev) (gb_permutation gargs) = (evs', Inl st') \<longrightarrow>
      snd (gifboxes_main ev gargs) \<noteq> 0 \<and>
      \<not> list_ex is_image_open (fst (gifboxes_main ev gargs)) \<and>
      \<not> list_ex is_save (fst (gifboxes_main ev gargs)) \<and>
      list_ex prints_error (fst (gifboxes_main ev gargs)) \<and>
      (path_exists ev (gb_image gargs) = Inr True \<longrightarrow>
         (\<exists>e. gifboxes_main ev gargs = ([Print (ErrorParsingPermutation e)], 1))) \<and>
      (path_exists ev (gb_image gargs) = Inr False \<longrightarrow>
         gifboxes_main ev gargs = ([Print (ImageNotFound (gb_image gargs))], 1)) \<and>
      (\<forall>e. path_exists ev (gb_image gargs) = Inl e \<longrightarrow>
         gifboxes_main ev gargs = ([Print (Traceback e)], 1)))"
proof (intro conjI impI allI)
  assume v: "validate_permutation (int_max_str_digits ev) (arg_permutation args) = (evs, Inl st)"
  from validate_permutation_rejects [OF v] obtain e where
    r: "st = 1" "evs = [Print (ErrorParsingPermutation e)]" by blast
  note m = main_rejected [OF v, unfolded r]
  show "snd (main ev args) \<noteq> 0"
    unfolding m by (simp split: sum.splits)
  show "\<not> list_ex is_image_open (fst (main ev args))"
    unfolding m by (simp split: sum.splits)
  show "\<not> list_ex is_save (fst (main ev args))"
    unfolding m by (simp split: sum.splits)
  show "list_ex prints_error (fst (main ev args))"
    unfolding m by (simp split: sum.splits)
  show "\<exists>e. main ev args = ([Print (ErrorParsingPermutation e)], 1)"
    if "path_exists ev (arg_image args) = Inr True \<and>
        (arg_output args = None \<longrightarrow> (\<exists>out. with_suffix_gif ev (arg_image args) = Inr out))"
    unfolding m using that by (cases "arg_output args") auto
  show "main ev args = ([Print (ImageNotFound (arg_image args))], 1)"
    if "path_exists ev (arg_image args) = Inr False"
    unfolding m using that by simp
  show "main ev args = ([Print (Traceback e')], 1)"
    if "path_exists ev (arg_image args) = Inl e' \<or>
        (path_exists ev (arg_image args) = Inr True \<and> arg_output args = None \<and>
         with_suffix_gif ev (arg_image args) = Inl e')" for e'
    unfolding m using that by auto
next
  assume v: "gifboxes_validate_permutation (int_max_str_digits ev) (gb_permutation gargs) =
               (evs', Inl st')"
  from gifboxes_validate_permutation_rejects [OF v] obtain e where
    r: "st' = 1" "evs' = [Print (ErrorParsingPermutation e)]" by blast
  note m = gifboxes_main_rejected [OF v, unfolded r]
  show "snd (gifboxes_main ev gargs) \<noteq> 0"
    unfolding m by (simp split: sum.splits)
  show "\<not> list_ex is_image_open (fst (gifboxes_main ev gargs))"
    unfolding m by (simp split: sum.splits)
  show "\<not> list_ex is_save (fst (gifboxes_main ev gargs))"
    unfolding m by (simp split: sum.splits)
  show "list_ex prints_error (fst (gifboxes_main ev gargs))"
    unfolding m by (simp split: sum.splits)
  show "\<exists>e. gifboxes_main ev gargs = ([Print (ErrorParsingPermutation e)], 1)"
    if "path_exists ev (gb_image gargs) = Inr True"
    unfolding m using that by simp
  show "gifboxes_main ev gargs = ([Print (ImageNotFound (gb_image gargs))], 1)"
    if "path_exists ev (gb_image gargs) = Inr False"
    unfolding m using that by simp
  show "gifboxes_main ev gargs = ([Print (Traceback e')], 1)"
    if "path_exists ev (gb_image gargs) = Inl e'" for e'
    unfolding m using that by simp
qed

theorem invalid_permutation_never_decodes_witness:
  "validate_permutation 4300 ''11234567 8'' =
     ([Print (ErrorParsingPermutation (ValueError ''Permutation must contain exactly 9 numbers''))],
      Inl 1) \<and>
   path_exists sample_env ''photo.png'' = Inr True \<and>
   arg_output sample_args = None \<and>
   with_suffix_gif sample_env ''photo.png'' = Inr ''photo.gif'' \<and>
   main sample_env (sample_args\<lparr>arg_permutation := ''11234567 8''\<rparr>) =
     ([Print (ErrorParsingPermutation (ValueError ''Permutation must contain exactly 9 numbers''))],
      1) \<and>
   \<not> list_ex is_image_open (fst (main sample_env (sample_args\<lparr>arg_permutation := ''11234567 8''\<rparr>))) \<and>
   \<not> list_ex is_save (fst (main sample_env (sample_args\<lparr>arg_permutation := ''11234567 8''\<rparr>))) \<and>
   validate_permutation 4300 ''123456780'' =
     ([Print (ErrorParsingPermutation
               (ValueError ''Permutation must contain numbers 1-9 exactly once each''))],
      Inl 1) \<and>
   validate_permutation 4300 ''12345678'' =
     ([Print (ErrorParsingPermutation (ValueError ''Permutation must contain exactly 9 numbers''))],
      Inl 1)"
proof -
  let ?args = "sample_args\<lparr>arg_permutation := ''11234567 8''\<rparr>"
  have m: "int_max_str_digits sample_env = 4300" "arg_permutation ?args = ''11234567 8''"
    by (simp_all add: sample_env_def)
  have v: "validate_permutation 4300 ''11234567 8'' =
     ([Print (ErrorParsingPermutation (ValueError ''Permutation must contain exactly 9 numbers''))],
      Inl 1)"
    by code_simp
  have v2: "validate_permutation 4300 ''123456780'' =
     ([Print (ErrorParsingPermutation
               (ValueError ''Permutation must contain numbers 1-9 exactly once each''))],
      Inl 1)"
    by code_simp
  have v3: "validate_permutation 4300 ''12345678'' =
     ([Print (ErrorParsingPermutation (ValueError ''Permutation must contain exactly 9 numbers''))],
      Inl 1)"
    by code_simp
  have p: "path_exists sample_env (arg_image ?args) = Inr True"
    "with_suffix_gif sample_env (arg_image ?args) = Inr ''photo.gif''"
    "arg_output sample_args = None" "arg_image ?args = ''photo.png''"
    by (simp_all add: sample_env_def sample_args_def)
  note t = invalid_permutation_never_decodes [of sample_env ?args _ 1, THEN conjunct1,
      rule_format, unfolded m, OF v]
  from t p obtain e where e: "main sample_env ?args = ([Print (ErrorParsingPermutation e)], 1)"
    by auto
  have "fst (main sample_env ?args) =
          [Print (ErrorParsingPermutation
                    (ValueError ''Permutation must contain exactly 9 numbers''))]"
    by code_simp
  with e have "main sample_env ?args =
     ([Print (ErrorParsingPermutation (ValueError ''Permutation must contain exactly 9 numbers''))],
      1)"
    by simp
  with t p v v2 v3 show ?thesis by simp
qed

text \<open>
  The claim as stated has the invalid permutation rejected with the validator's error on
  every run. With an image path that does not exist the programs leave before they look
  at the permutation: the only message is the missing file's. And \<^verbatim>\<open>src/gif_unveil.py\<close>,
  given the image path \<^verbatim>\<open>.\<close> and no output path, leaves with the \<^verbatim>\<open>ValueError\<close> of
  \<^verbatim>\<open>with_suffix\<close>, which nothing catches.
\<close>

theorem missing_file_reported_first_counterexample:
  "validate_permutation (int_max_str_digits sample_env) ''12345678'' =
     ([Print (ErrorParsingPermutation (ValueError ''Permutation must contain exactly 9 numbers''))],
      Inl 1) \<and>
   main sample_env \<lparr>arg_image = ''missing.png'', arg_permutation = ''12345678'',
                    arg_output = None, arg_duration = Finite 12\<rparr> =
     ([Print (ImageNotFound ''missing.png'')], 1) \<and>
   gifboxes_main sample_env \<lparr>gb_image = ''missing.png'', gb_permutation = ''12345678'',
                             gb_output = ''output.gif''\<rparr> =
     ([Print (ImageNotFound ''missing.png'')], 1) \<and>
   main unnamed_path_env \<lparr>arg_image = ''.'', arg_permutation = ''12345678'',
                          arg_output = None, arg_duration = Finite 12\<rparr> =
     ([Print (Traceback (ValueError ''PosixPath has an empty name''))], 1)"
  by code_simp

text \<open>
  C9 (as amended). The two programs compute the same grid for every size and, from the
  same loaded image and the same permutation, the same frames. Their runs on the same
  image path are the same, message for message, call for call and in the exit status,
  but for the duration and the loop argument of the \<^verbatim>\<open>save\<close> call, whenever the things
  in which the programs do differ are set aside: the output path is the same (the
  default of \<^verbatim>\<open>src/gif_unveil.py\<close> is the image path with the suffix \<^verbatim>\<open>.gif\<close>, that of
  \<^verbatim>\<open>src/gifboxes/gif_unveil.py\<close> is \<^verbatim>\<open>output.gif\<close>), the permutation strings are ones
  that the two validators take to the same result, the duration of
  \<^verbatim>\<open>src/gif_unveil.py\<close> can be computed, and the encoder's outcome does not depend on
  duration and loop; this for image files that the orientation step of
  \<^verbatim>\<open>src/gif_unveil.py\<close> leaves as they are. The encoding parameters differ: a computed
  duration and no loop argument in \<^verbatim>\<open>src/gif_unveil.py\<close>, 500 and 0 in
  \<^verbatim>\<open>src/gifboxes/gif_unveil.py\<close>.
\<close>

theorem variants_differ_only_in_encoding:
  "gifboxes_get_grid_coordinates w h = get_grid_coordinates w h \<and>
   gifboxes_unveil_frames img perm = unveil_frames img perm \<and>
   (gb_image gargs = arg_image args \<and>
    (case arg_output args of None \<Rightarrow> with_suffix_gif ev (arg_image args)
     | Some out \<Rightarrow> Inr out) = Inr (gb_output gargs) \<and>
    gifboxes_validate_permutation (int_max_str_digits ev) (gb_permutation gargs) =
      validate_permutation (int_max_str_digits ev) (arg_permutation args) \<and>
    (\<forall>opened. image_open ev (arg_image args) = Inr opened \<longrightarrow>
       exif_transpose opened = pixels opened) \<and>
    (\<exists>ms. frame_duration_ms (float_round ev) (arg_duration args) 10 = Inr ms) \<and>
    (\<forall>c c'. erase_call c = erase_call c' \<longrightarrow> gif_save ev c = gif_save ev c') \<longrightarrow>
      snd (gifboxes_main ev gargs) = snd (main ev args) \<and>
      map erase_encoding (fst (gifboxes_main ev gargs)) =
      map erase_encoding (fst (main ev args))) \<and>
   (Save call r \<in> set (fst (main ev args)) \<longrightarrow>
      frame_duration_ms (float_round ev) (arg_duration args) 10 = Inr (save_duration call) \<and>
      save_loop call = None) \<and>
   (Save call' r' \<in> set (fst (gifboxes_main ev gargs)) \<longrightarrow>
      save_duration call' = 500 \<and> save_loop call' = Some 0)"
proof (intro conjI impI)
  show "gifboxes_get_grid_coordinates w h = get_grid_coordinates w h"
    by (rule gifboxes_get_grid_coordinates_eq)
  show "gifboxes_unveil_frames img perm = unveil_frames img perm"
    by (rule gifboxes_unveil_frames_eq)
  show "snd (gifboxes_main ev gargs) = snd (main ev args)"
    "map erase_encoding (fst (gifboxes_main ev gargs)) = map erase_encoding (fst (main ev args))"
    if a: "gb_image gargs = arg_image args \<and>
      (case arg_output args of None \<Rightarrow> with_suffix_gif ev (arg_image args)
       | Some out \<Rightarrow> Inr out) = Inr (gb_output gargs) \<and>
      gifboxes_validate_permutation (int_max_str_digits ev) (gb_permutation gargs) =
        validate_permutation (int_max_str_digits ev) (arg_permutation args) \<and>
      (\<forall>opened. image_open ev (arg_image args) = Inr opened \<longrightarrow>
         exif_transpose opened = pixels opened) \<and>
      (\<exists>ms. frame_duration_ms (float_round ev) (arg_duration args) 10 = Inr ms) \<and>
      (\<forall>c c'. erase_call c = erase_call c' \<longrightarrow> gif_save ev c = gif_save ev c')"
  proof -
    from a obtain ms where
      ms: "frame_duration_ms (float_round ev) (arg_duration args) 10 = Inr ms" by blast
    from a have
      i: "gb_image gargs = arg_image args"
      and out: "(case arg_output args of None \<Rightarrow> with_suffix_gif ev (arg_image args)
                 | Some out \<Rightarrow> Inr out) = Inr (gb_output gargs)"
      and v: "gifboxes_validate_permutation (int_max_str_digits ev) (gb_permutation gargs) =
              validate_permutation (int_max_str_digits ev) (arg_permutation args)"
      and o: "\<forall>opened. image_open ev (arg_image args) = Inr opened \<longrightarrow>
                exif_transpose opened = pixels opened"
      and s: "\<forall>c c'. erase_call c = erase_call c' \<longrightarrow> gif_save ev c = gif_save ev c'"
      by blast+
    note e = main_erased [OF i out v o ms s]
    show "snd (gifboxes_main ev gargs) = snd (main ev args)"
      using e by (rule conjunct1)
    show "map erase_encoding (fst (gifboxes_main ev gargs)) =
          map erase_encoding (fst (main ev args))"
      using e by (rule conjunct2)
  qed
  show "frame_duration_ms (float_round ev) (arg_duration args) 10 = Inr (save_duration call)"
    "save_loop call = None"
    if "Save call r \<in> set (fst (main ev args))"
    using main_save_call [OF that] by simp_all
  show "save_duration call' = 500" "save_loop call' = Some 0"
    if "Save call' r' \<in> set (fst (gifboxes_main ev gargs))"
    using gifboxes_main_save_call [OF that] by simp_all
qed

theorem variants_differ_only_in_encoding_witness:
  "snd (main sample_env (sample_args\<lparr>arg_permutation := ''9,8,7,6,5,4,3,2,1''\<rparr>)) = 0 \<and>
   snd (gifboxes_main sample_env (gifboxes_sample_args\<lparr>gb_output := ''photo.gif''\<rparr>)) = 0 \<and>
   map erase_encoding
     (fst (gifboxes_main sample_env (gifboxes_sample_args\<lparr>gb_output := ''photo.gif''\<rparr>))) =
   map erase_encoding
     (fst (main sample_env (sample_args\<lparr>arg_permutation := ''9,8,7,6,5,4,3,2,1''\<rparr>))) \<and>
   length (frames_handed_over
     (fst (gifboxes_main sample_env (gifboxes_sample_args\<lparr>gb_output := ''photo.gif''\<rparr>)))) = 10 \<and>
   map save_duration
     (saves (fst (main sample_env (sample_args\<lparr>arg_permutation := ''9,8,7,6,5,4,3,2,1''\<rparr>)))) =
     [1200] \<and>
   map save_duration
     (saves (fst (gifboxes_main sample_env (gifboxes_sample_args\<lparr>gb_output := ''photo.gif''\<rparr>)))) =
     [500] \<and>
   validate_permutation 4300 ''987654321'' = ([], Inr [9, 8, 7, 6, 5, 4, 3, 2, 1]) \<and>
   gifboxes_validate_permutation 4300 ''987654321'' =
     ([Print (ErrorParsingPermutation (ValueError ''Permutation must contain exactly 9 numbers''))],
      Inl 1)"
proof -
  let ?args = "sample_args\<lparr>arg_permutation := ''9,8,7,6,5,4,3,2,1''\<rparr>"
  let ?gargs = "gifboxes_sample_args\<lparr>gb_output := ''photo.gif''\<rparr>"
  have i: "gb_image ?gargs = arg_image ?args"
    by (simp add: sample_args_def gifboxes_sample_args_def)
  have out: "(case arg_output ?args of None \<Rightarrow> with_suffix_gif sample_env (arg_image ?args)
              | Some out \<Rightarrow> Inr out) = Inr (gb_output ?gargs)"
    by (simp add: sample_args_def sample_env_def)
  have v: "gifboxes_validate_permutation (int_max_str_digits sample_env) (gb_permutation ?gargs) =
           validate_permutation (int_max_str_digits sample_env) (arg_permutation ?args)"
    by code_simp
  have o: "\<forall>opened. image_open sample_env (arg_image ?args) = Inr opened \<longrightarrow>
             exif_transpose opened = pixels opened"
    by (auto simp add: sample_env_def exif_transpose_def)
  have d: "\<exists>ms. frame_duration_ms (float_round sample_env) (arg_duration ?args) 10 = Inr ms"
  proof -
    have "frame_duration_ms (float_round sample_env) (arg_duration ?args) 10 = Inr 1200"
      by code_simp
    then show ?thesis by blast
  qed
  have s: "\<forall>c c'. erase_call c = erase_call c' \<longrightarrow> gif_save sample_env c = gif_save sample_env c'"
    by (simp add: sample_env_def)
  have a: "snd (main sample_env ?args) = 0" by code_simp
  have l: "length (frames_handed_over (fst (gifboxes_main sample_env ?gargs))) = 10"
    by code_simp
  have da: "map save_duration (saves (fst (main sample_env ?args))) = [1200]"
    by code_simp
  have db: "map save_duration (saves (fst (gifboxes_main sample_env ?gargs))) = [500]"
    by code_simp
  have v1: "validate_permutation 4300 ''987654321'' = ([], Inr [9, 8, 7, 6, 5, 4, 3, 2, 1])"
    by code_simp
  have v2: "gifboxes_validate_permutation 4300 ''987654321'' =
     ([Print (ErrorParsingPermutation (ValueError ''Permutation must contain exactly 9 numbers''))],
      Inl 1)"
    by code_simp
  from variants_differ_only_in_encoding [where ev = sample_env and args = ?args
      and gargs = ?gargs, THEN conjunct2, THEN conjunct2, THEN conjunct1, rule_format,
      OF conjI [OF i conjI [OF out conjI [OF v conjI [OF o conjI [OF d s]]]]]]
  have "snd (gifboxes_main sample_env ?gargs) = snd (main sample_env ?args) \<and>
        map erase_encoding (fst (gifboxes_main sample_env ?gargs)) =
        map erase_encoding (fst (main sample_env ?args))" .
  then show ?thesis using a l da db v1 v2 by simp
qed

text \<open>
  The claim as stated, no difference but the encoding parameters and the permutation
  formats, leaves out the default output path. On the same command line, without an
  output path, \<^verbatim>\<open>src/gif_unveil.py\<close> writes the GIF next to the image, under the image's name
  with the suffix \<^verbatim>\<open>.gif\<close>, and \<^verbatim>\<open>src/gifboxes/gif_unveil.py\<close> writes \<^verbatim>\<open>output.gif\<close> in the
  working directory; both say so in the help text of the option.
\<close>

theorem default_output_path_counterexample:
  "arg_image (sample_args\<lparr>arg_permutation := ''9,8,7,6,5,4,3,2,1''\<rparr>) =
     gb_image gifboxes_sample_args \<and>
   arg_permutation (sample_args\<lparr>arg_permutation := ''9,8,7,6,5,4,3,2,1''\<rparr>) =
     gb_permutation gifboxes_sample_args \<and>
   arg_output sample_args = None \<and>
   gb_output gifboxes_sample_args = gifboxes_default_output \<and>
   map save_path
     (saves (fst (main sample_env (sample_args\<lparr>arg_permutation := ''9,8,7,6,5,4,3,2,1''\<rparr>)))) =
     [''photo.gif''] \<and>
   map save_path (saves (fst (gifboxes_main sample_env gifboxes_sample_args))) =
     [''output.gif'']"
  by code_simp

end
